theory Spec2Isabelle
  imports Complex_Main
begin

section \<open>Data model\<close>

text \<open>
  A JavaScript number is one of the finite values, negative zero, NaN or an infinity.
  A finite value is represented by the rational it denotes (\<open>Fin 0\<close> is positive zero).
  The numbers of a data document are binary64 values; a number read from a text and a sum
  are rounded to binary64 (see \<open>toBinary64\<close> below).
\<close>

datatype jsnum = Fin rat | NegZero | NaN | PosInf | NegInf

text \<open>
  A data document is a value as \<open>JSON.parse\<close> produces it, plus \<open>undefined\<close>, which the
  renderer produces itself. An object is the association list of its own properties, keys
  distinct. A string is the list of its code units; the model holds code units below 256.
  Reading a property that a value does not own goes along its prototype chain and may reach
  an object of the host: a built-in function such as \<open>Object\<close>, or a prototype object.
  \<open>JHostObject n\<close> is such an object, named by a number.
\<close>

datatype jsval =
    JUndefined
  | JNull
  | JBool bool
  | JNum jsnum
  | JStr string
  | JArr "jsval list"
  | JObj "(string \<times> jsval) list"
  | JHostObject nat

datatype error = TypeError | RangeError

text \<open>
  What the renderer takes from its host and the model leaves open.
  \<^item> \<open>inherited v key\<close>: the result of \<open>v[key]\<close> for a value of a data document and a key
    that is not an own property of it, read along the prototype chain: \<open>undefined\<close> when
    no prototype has the key, the value found, or the error that an accessor raises.
  \<^item> \<open>hostProp n key\<close>: the result of reading \<open>key\<close> on the host object \<open>n\<close>, likewise.
  \<^item> \<open>hostItems n\<close>: the elements of the host object \<open>n\<close> when it is an array (as
    \<open>Array.prototype\<close> is), nothing otherwise.
  \<^item> \<open>hostToString n\<close>: \<open>String\<close> of the host object \<open>n\<close>.
  \<^item> \<open>numberToString\<close>: the text of a finite number that is not an integer below \<open>10^21\<close>
    (\<open>Number.prototype.toString\<close>).
  \<^item> The case mappings of strings.
  \<^item> \<open>parseDate\<close>: the reading of a value as a calendar date in the local time zone
    (\<open>new Date(value)\<close>): nothing for an invalid date, else the full year, the month
    counted from zero and the day of the month.
  \<^item> \<open>widthOfTextAtSize\<close>: the width of a text in the embedded font.
\<close>

record host =
  inherited :: "jsval \<Rightarrow> string \<Rightarrow> error + jsval"
  hostProp :: "nat \<Rightarrow> string \<Rightarrow> error + jsval"
  hostItems :: "nat \<Rightarrow> jsval list option"
  hostToString :: "nat \<Rightarrow> string"
  numberToString :: "rat \<Rightarrow> string"
  toUpperCase :: "string \<Rightarrow> string"
  toLowerCase :: "string \<Rightarrow> string"
  parseDate :: "jsval \<Rightarrow> (int \<times> nat \<times> nat) option"
  widthOfTextAtSize :: "string \<Rightarrow> rat \<Rightarrow> rat"

text \<open>
  A host for the examples. Of the inherited properties it has \<open>constructor\<close>: the built-in
  functions \<open>Object\<close>, \<open>Array\<close>, \<open>String\<close>, \<open>Number\<close>, \<open>Boolean\<close> and, for these,
  \<open>Function\<close>, numbered from 0. Of the properties of these functions it has \<open>name\<close>,
  \<open>length\<close>, \<open>constructor\<close>, and \<open>caller\<close> and \<open>arguments\<close>, the accessors of
  \<open>Function.prototype\<close> that raise a TypeError. Every other key reads as \<open>undefined\<close>;
  the examples below read no other key that a prototype holds. The case mappings are the
  identity, no value is a date, the numbers left open have no text, and each character of a
  text is half the font size wide.
\<close>

fun constructorOf :: "jsval \<Rightarrow> nat" where
  "constructorOf (JObj kvs) = 0"
| "constructorOf (JArr xs) = 1"
| "constructorOf (JStr s) = 2"
| "constructorOf (JNum n) = 3"
| "constructorOf (JBool b) = 4"
| "constructorOf v = 5"

definition constructorName :: "nat \<Rightarrow> string" where
  "constructorName n =
     (if n = 0 then ''Object'' else if n = 1 then ''Array'' else if n = 2 then ''String''
      else if n = 3 then ''Number'' else if n = 4 then ''Boolean'' else ''Function'')"

definition exampleHost :: host where
  "exampleHost =
     \<lparr>inherited = (\<lambda>v key. if key = ''constructor'' then Inr (JHostObject (constructorOf v))
                           else Inr JUndefined),
      hostProp = (\<lambda>n key. if key = ''caller'' \<or> key = ''arguments'' then Inl TypeError
                          else if key = ''name'' then Inr (JStr (constructorName n))
                          else if key = ''length'' then Inr (JNum (Fin 1))
                          else if key = ''constructor'' then Inr (JHostObject 5)
                          else Inr JUndefined),
      hostItems = (\<lambda>n. None),
      hostToString = (\<lambda>n. ''function '' @ constructorName n @ ''() { [native code] }''),
      numberToString = (\<lambda>q. []), toUpperCase = (\<lambda>s. s), toLowerCase = (\<lambda>s. s),
      parseDate = (\<lambda>v. None), widthOfTextAtSize = (\<lambda>s z. of_nat (length s) * z / 2)\<rparr>"

section \<open>Strings\<close>

definition isDigit :: "char \<Rightarrow> bool" where
  "isDigit c = (c \<in> set ''0123456789'')"

definition digitVal :: "char \<Rightarrow> nat" where
  "digitVal c = of_char c - 48"

definition decimalVal :: "string \<Rightarrow> nat" where
  "decimalVal s = foldl (\<lambda>n c. 10 * n + digitVal c) 0 s"

text \<open>\<open>\s\<close> of a regular expression and the white space \<open>trim\<close> removes: tab, line feed,
  vertical tab, form feed, carriage return, space and no-break space.\<close>

definition isSpace :: "char \<Rightarrow> bool" where
  "isSpace c = (of_char c \<in> {9, 10, 11, 12, 13, 32, 160 :: nat})"

text \<open>The line terminators, which \<open>.\<close> of a regular expression does not match.\<close>

definition isLineTerminator :: "char \<Rightarrow> bool" where
  "isLineTerminator c = (of_char c \<in> {10, 13 :: nat})"

definition trim :: "string \<Rightarrow> string" where
  "trim s = rev (dropWhile isSpace (rev (dropWhile isSpace s)))"

definition startsWith :: "string \<Rightarrow> string \<Rightarrow> bool" where
  "startsWith s p = (take (length p) s = p)"

text \<open>\<open>s.includes(sep)\<close>.\<close>

fun includesStr :: "string \<Rightarrow> string \<Rightarrow> bool" where
  "includesStr [] sep = (sep = [])"
| "includesStr (c # cs) sep = (startsWith (c # cs) sep \<or> includesStr cs sep)"

text \<open>\<open>s.split(sep)\<close> for a separator that is not empty: the pieces between the
  occurrences of \<open>sep\<close>, found from the left.\<close>

fun splitOn :: "string \<Rightarrow> string \<Rightarrow> string list" where
  "splitOn sep [] = [[]]"
| "splitOn sep (c # cs) =
     (if sep \<noteq> [] \<and> startsWith (c # cs) sep
      then [] # splitOn sep (drop (length sep - 1) cs)
      else (case splitOn sep cs of
              [] \<Rightarrow> [[c]]
            | p # ps \<Rightarrow> (c # p) # ps))"

text \<open>\<open>s.replace(/\[(\d+)\]/g, ".$1")\<close>: every bracketed run of digits, scanned from the
  left, becomes a dot and the digits.\<close>

function replaceIndices :: "string \<Rightarrow> string" where
  "replaceIndices [] = []"
| "replaceIndices (c # cs) =
     (if c = CHR ''['' \<and> takeWhile isDigit cs \<noteq> []
         \<and> startsWith (dropWhile isDigit cs) '']''
      then CHR ''.'' # takeWhile isDigit cs @ replaceIndices (tl (dropWhile isDigit cs))
      else c # replaceIndices cs)"
  by pat_completeness auto
termination
proof (relation "measure length")
  fix c :: char and cs :: string
  have "length (tl (dropWhile isDigit cs)) \<le> length (dropWhile isDigit cs)"
    by simp
  also have "\<dots> \<le> length cs"
    by (rule length_dropWhile_le)
  finally show "(tl (dropWhile isDigit cs), c # cs) \<in> measure length"
    by simp
qed auto

section \<open>Path Resolver\<close>

text \<open>\<open>Array.isArray(value)\<close>, with the elements of an array; and the test
  \<open>value === null || value === undefined\<close>.\<close>

fun arrayItems :: "host \<Rightarrow> jsval \<Rightarrow> jsval list option" where
  "arrayItems h (JArr xs) = Some xs"
| "arrayItems h (JHostObject n) = hostItems h n"
| "arrayItems h v = None"


fun isNullish :: "jsval \<Rightarrow> bool" where
  "isNullish JNull = True"
| "isNullish JUndefined = True"
| "isNullish v = False"

text \<open>A property key that is an array index: a decimal numeral without a leading zero.\<close>

definition arrayIndex :: "string \<Rightarrow> nat option" where
  "arrayIndex key =
     (if key \<noteq> [] \<and> list_all isDigit key \<and> (key = ''0'' \<or> hd key \<noteq> CHR ''0'')
      then Some (decimalVal key) else None)"

text \<open>
  \<open>value[key]\<close>. Reading a property of \<open>null\<close> or \<open>undefined\<close> raises a TypeError. The own
  properties of an object are its entries, those of an array and of a string are \<open>length\<close>
  and the indices below it, a number and a boolean have none; a key that is not an own
  property is read along the prototype chain, and every key of a host object is read by the
  host.
\<close>

fun getProp :: "host \<Rightarrow> jsval \<Rightarrow> string \<Rightarrow> error + jsval" where
  "getProp h JNull key = Inl TypeError"
| "getProp h JUndefined key = Inl TypeError"
| "getProp h (JObj kvs) key =
     (case map_of kvs key of
        Some v \<Rightarrow> Inr v
      | None \<Rightarrow> inherited h (JObj kvs) key)"
| "getProp h (JArr xs) key =
     (if key = ''length'' then Inr (JNum (Fin (of_nat (length xs))))
      else case arrayIndex key of
             None \<Rightarrow> inherited h (JArr xs) key
           | Some i \<Rightarrow> if i < length xs then Inr (xs ! i) else inherited h (JArr xs) key)"
| "getProp h (JStr s) key =
     (if key = ''length'' then Inr (JNum (Fin (of_nat (length s))))
      else case arrayIndex key of
             None \<Rightarrow> inherited h (JStr s) key
           | Some i \<Rightarrow> if i < length s then Inr (JStr [s ! i]) else inherited h (JStr s) key)"
| "getProp h (JBool b) key = inherited h (JBool b) key"
| "getProp h (JNum n) key = inherited h (JNum n) key"
| "getProp h (JHostObject n) key = hostProp h n key"

text \<open>\<open>pathStr.replace(/\[(\d+)\]/g, ".$1").split(".")\<close>.\<close>

definition pathKeys :: "string \<Rightarrow> string list" where
  "pathKeys pathStr = splitOn ''.'' (replaceIndices pathStr)"

text \<open>The loop over the keys, with the \<open>return value ?? defaultValue\<close> that follows it.\<close>

fun walk :: "host \<Rightarrow> jsval \<Rightarrow> string list \<Rightarrow> jsval \<Rightarrow> error + jsval" where
  "walk h v [] defaultValue = Inr (if isNullish v then defaultValue else v)"
| "walk h v (key # keys) defaultValue =
     (if isNullish v then Inr defaultValue
      else case getProp h v key of
             Inl e \<Rightarrow> Inl e
           | Inr v' \<Rightarrow> walk h v' keys defaultValue)"

text \<open>\<open>array.map(f)\<close> for an \<open>f\<close> that may raise: the first error ends the map.\<close>

fun mapE :: "('a \<Rightarrow> error + 'b) \<Rightarrow> 'a list \<Rightarrow> error + 'b list" where
  "mapE f [] = Inr []"
| "mapE f (x # xs) =
     (case f x of
        Inl e \<Rightarrow> Inl e
      | Inr y \<Rightarrow> (case mapE f xs of Inl e \<Rightarrow> Inl e | Inr ys \<Rightarrow> Inr (y # ys)))"

lemma mapE_cong_same:
  "(\<And>x. x \<in> set ys \<Longrightarrow> f x = g x) \<Longrightarrow> mapE f ys = mapE g ys"
  by (induction ys) (auto split: sum.splits)

lemma mapE_cong [fundef_cong]:
  "xs = ys \<Longrightarrow> (\<And>x. x \<in> set ys \<Longrightarrow> f x = g x) \<Longrightarrow> mapE f xs = mapE g ys"
  using mapE_cong_same [of ys f g] by simp

lemma splitOn_not_Nil: "splitOn sep s \<noteq> []"
  by (induction sep s rule: splitOn.induct) (auto split: list.splits)

lemma startsWith_length: "startsWith s p \<Longrightarrow> length p \<le> length s"
proof -
  assume "startsWith s p"
  then have "length (take (length p) s) = length p"
    by (simp add: startsWith_def)
  then show ?thesis by simp
qed

lemma length_splitOn_pieces:
  "sep \<noteq> [] \<Longrightarrow>
   sum_list (map length (splitOn sep s)) + length sep * (length (splitOn sep s) - 1) = length s"
proof (induction sep s rule: splitOn.induct)
  case (1 sep)
  then show ?case by simp
next
  case (2 sep c cs)
  show ?case
  proof (cases "startsWith (c # cs) sep")
    case True
    define r where "r = drop (length sep - 1) cs"
    define n where "n = length (splitOn sep r)"
    define m where "m = sum_list (map length (splitOn sep r))"
    have len: "length sep \<le> Suc (length cs)"
      using startsWith_length [OF True] by simp
    have pos: "0 < length sep" using 2(3) by simp
    have npos: "0 < n"
      using splitOn_not_Nil [of sep r] by (simp add: n_def)
    have ih: "m + length sep * (n - 1) = length r"
      using 2(1) [OF _ 2(3)] True 2(3) by (simp add: r_def n_def m_def)
    have lr: "length r = length cs - (length sep - 1)"
      by (simp add: r_def)
    have "length sep * n = length sep * (n - 1) + length sep"
      using npos by (cases n) simp_all
    then have "m + length sep * n = Suc (length cs)"
      using ih lr len pos by linarith
    moreover have "splitOn sep (c # cs) = [] # splitOn sep r"
      using True 2(3) by (simp add: r_def)
    ultimately show ?thesis
      by (simp add: n_def m_def)
  next
    case False
    then have eq: "splitOn sep (c # cs) =
        (case splitOn sep cs of [] \<Rightarrow> [[c]] | p # ps \<Rightarrow> (c # p) # ps)"
      by simp
    obtain p ps where ps: "splitOn sep cs = p # ps"
      using splitOn_not_Nil [of sep cs] by (cases "splitOn sep cs") auto
    have ih: "sum_list (map length (splitOn sep cs))
        + length sep * (length (splitOn sep cs) - 1) = length cs"
      using 2(2) [OF _ 2(3)] False by simp
    have "splitOn sep (c # cs) = (c # p) # ps"
      using False by (simp add: ps)
    then show ?thesis
      using ih by (simp add: ps)
  qed
qed

lemma splitOn_two_pieces:
  assumes "splitOn sep s = a # b # others" and "sep \<noteq> []"
  shows "length a + length b + length sep \<le> length s"
proof -
  have "sum_list (map length (splitOn sep s)) + length sep * (length (splitOn sep s) - 1) = length s"
    using assms(2) by (rule length_splitOn_pieces)
  then have "length a + length b + sum_list (map length others) + length sep * Suc (length others) = length s"
    using assms(1) by simp
  then show ?thesis by simp
qed

text \<open>\<open>rest.startsWith(".") ? rest.slice(1) : rest\<close>.\<close>

definition restPathOf :: "string \<Rightarrow> string" where
  "restPathOf rest = (if startsWith rest ''.'' then drop 1 rest else rest)"

text \<open>A parameter declared with a default, as in \<open>defaultValue = null\<close>: an argument that
  is absent or \<open>undefined\<close> takes the default.\<close>

definition orDefault :: "jsval \<Rightarrow> jsval \<Rightarrow> jsval" where
  "orDefault arg d = (if arg = JUndefined then d else arg)"

text \<open>
  \<open>getNestedValue(obj, pathStr, defaultValue = null)\<close>; a caller that passes no default
  passes \<open>JUndefined\<close>. The destructuring
  \<open>const [arrayPath, rest] = pathStr.split("[*]")\<close> takes the first two pieces; were there
  fewer than two, \<open>rest\<close> would be \<open>undefined\<close> and \<open>rest.startsWith\<close> a TypeError.
\<close>

function getNestedValue :: "host \<Rightarrow> jsval \<Rightarrow> string \<Rightarrow> jsval \<Rightarrow> error + jsval" where
  "getNestedValue h obj pathStr defaultValue =
     (if pathStr = [] then Inr (orDefault defaultValue JNull)
      else if includesStr pathStr ''[*]'' then
        (case splitOn ''[*]'' pathStr of
           arrayPath # rest # others \<Rightarrow>
             (case getNestedValue h obj arrayPath (JArr []) of
                Inl e \<Rightarrow> Inl e
              | Inr array \<Rightarrow>
                  (case arrayItems h array of
                     None \<Rightarrow> Inr (orDefault defaultValue JNull)
                   | Some items \<Rightarrow>
                       (let restPath = restPathOf rest in
                        case mapE (\<lambda>item. if restPath \<noteq> []
                                          then getNestedValue h item restPath JUndefined
                                          else Inr item) items of
                          Inl e \<Rightarrow> Inl e
                        | Inr results \<Rightarrow> Inr (JArr results))))
         | _ \<Rightarrow> Inl TypeError)
      else walk h obj (pathKeys pathStr) (orDefault defaultValue JNull))"
  by pat_completeness auto
termination
proof (relation "measure (\<lambda>(h, obj, pathStr, defaultValue). length pathStr)", goal_cases)
  case 1
  show ?case by simp
next
  case (2 h obj pathStr defaultValue arrayPath ys rest others)
  have "length arrayPath + length rest + length ''[*]'' \<le> length pathStr"
    by (rule splitOn_two_pieces) (use 2 in simp_all)
  then show ?case by simp
next
  case (3 h obj pathStr defaultValue arrayPath ys rest others array items restPath item)
  have "length arrayPath + length rest + length ''[*]'' \<le> length pathStr"
    by (rule splitOn_two_pieces) (use 3 in simp_all)
  moreover have "length restPath \<le> length rest"
    using 3 by (simp add: restPathOf_def split: if_splits)
  ultimately show ?case by simp
qed

declare getNestedValue.simps [simp del]

lemma mapE_Inr_nth:
  "mapE f xs = Inr rs \<Longrightarrow>
   length rs = length xs \<and> (\<forall>i<length xs. f (xs ! i) = Inr (rs ! i))"
proof (induction xs arbitrary: rs)
  case Nil
  then show ?case by simp
next
  case (Cons x xs)
  from Cons.prems obtain y ys where y: "f x = Inr y" and ys: "mapE f xs = Inr ys"
    and rs: "rs = y # ys"
    by (auto split: sum.splits)
  from Cons.IH [OF ys] have len: "length ys = length xs"
    and nth: "\<forall>i<length xs. f (xs ! i) = Inr (ys ! i)" by simp_all
  show ?case
  proof (intro conjI allI impI)
    show "length rs = length (x # xs)" by (simp add: rs len)
  next
    fix i assume "i < length (x # xs)"
    then show "f ((x # xs) ! i) = Inr (rs ! i)"
      using y nth by (cases i) (simp_all add: rs)
  qed
qed

lemma mapE_all_Inr:
  "length rs = length xs \<Longrightarrow> (\<forall>i<length xs. f (xs ! i) = Inr (rs ! i)) \<Longrightarrow>
   mapE f xs = Inr rs"
proof (induction xs arbitrary: rs)
  case Nil
  then show ?case by simp
next
  case (Cons x xs)
  from Cons.prems(1) obtain y ys where rs: "rs = y # ys" and len: "length ys = length xs"
    by (cases rs) auto
  have y: "f x = Inr y"
    using Cons.prems(2) rs by auto
  have "\<forall>i<length xs. f (xs ! i) = Inr (ys ! i)"
  proof (intro allI impI)
    fix i assume "i < length xs"
    then have "f ((x # xs) ! Suc i) = Inr (rs ! Suc i)"
      using Cons.prems(2) by auto
    then show "f (xs ! i) = Inr (ys ! i)" by (simp add: rs)
  qed
  from Cons.IH [OF len this] show ?case by (simp add: y rs)
qed

lemma mapE_some_Inl:
  "i < length xs \<Longrightarrow> f (xs ! i) = Inl e \<Longrightarrow> \<exists>e'. mapE f xs = Inl e'"
proof (induction xs arbitrary: i)
  case Nil
  then show ?case by simp
next
  case (Cons x xs)
  show ?case
  proof (cases i)
    case 0
    then show ?thesis using Cons.prems by simp
  next
    case (Suc j)
    then have "\<exists>e'. mapE f xs = Inl e'"
      using Cons.IH [of j] Cons.prems by simp
    then show ?thesis by (auto split: sum.splits)
  qed
qed

lemma includes_splitOn:
  "includesStr s sep \<Longrightarrow> sep \<noteq> [] \<Longrightarrow> \<exists>a b others. splitOn sep s = a # b # others"
proof (induction s)
  case Nil
  then show ?case by simp
next
  case (Cons c cs)
  show ?case
  proof (cases "startsWith (c # cs) sep")
    case True
    obtain p ps where "splitOn sep (drop (length sep - 1) cs) = p # ps"
      using splitOn_not_Nil [of sep "drop (length sep - 1) cs"]
      by (cases "splitOn sep (drop (length sep - 1) cs)") auto
    with True Cons.prems show ?thesis by simp
  next
    case False
    with Cons obtain a b others where "splitOn sep cs = a # b # others"
      by auto
    with False show ?thesis by simp
  qed
qed

lemma getNestedValue_empty: "getNestedValue h obj [] d = Inr (orDefault d JNull)"
  by (simp add: getNestedValue.simps orDefault_def)

lemma getNestedValue_plain:
  "\<not> includesStr p ''[*]'' \<Longrightarrow> p \<noteq> [] \<Longrightarrow>
   getNestedValue h obj p d = walk h obj (pathKeys p) (orDefault d JNull)"
  by (simp add: getNestedValue.simps orDefault_def)

lemma getNestedValue_wild:
  assumes "includesStr p ''[*]''" and "splitOn ''[*]'' p = arrayPath # rest # others"
  shows "getNestedValue h obj p d =
     (case getNestedValue h obj arrayPath (JArr []) of
        Inl e \<Rightarrow> Inl e
      | Inr array \<Rightarrow>
          (case arrayItems h array of
             None \<Rightarrow> Inr (orDefault d JNull)
           | Some items \<Rightarrow>
               (case mapE (\<lambda>item. if restPathOf rest \<noteq> []
                                 then getNestedValue h item (restPathOf rest) JUndefined
                                 else Inr item) items of
                  Inl e \<Rightarrow> Inl e
                | Inr results \<Rightarrow> Inr (JArr results))))"
proof -
  have "p \<noteq> []" using assms(1) by auto
  then show ?thesis
    using assms
    by (subst getNestedValue.simps) (simp add: Let_def split: sum.splits option.splits)
qed

lemma splitOn_no_sep: "\<not> includesStr s sep \<Longrightarrow> splitOn sep s = [s]"
  by (induction s) auto

lemma wild_no_overlap:
  assumes "\<not> includesStr (c # a) ''[*]''"
  shows "\<not> startsWith ((c # a) @ ''[*]'' @ b) ''[*]''"
proof (cases a)
  case Nil
  then show ?thesis by (simp add: startsWith_def)
next
  case (Cons x a')
  show ?thesis
  proof (cases a')
    case Nil
    then show ?thesis using Cons by (simp add: startsWith_def)
  next
    case (Cons y a'')
    then show ?thesis using assms \<open>a = x # a'\<close> by (simp add: startsWith_def)
  qed
qed

lemma splitOn_wild_concat:
  "\<not> includesStr a ''[*]'' \<Longrightarrow>
   splitOn ''[*]'' (a @ ''[*]'' @ b) = a # splitOn ''[*]'' b"
proof (induction a)
  case Nil
  then show ?case by (simp add: startsWith_def)
next
  case (Cons c a)
  have "\<not> startsWith ((c # a) @ ''[*]'' @ b) ''[*]''"
    using Cons.prems(1) by (rule wild_no_overlap)
  moreover have "splitOn ''[*]'' (a @ ''[*]'' @ b) = a # splitOn ''[*]'' b"
    using Cons by simp
  ultimately show ?case by simp
qed

lemma includes_wild_concat: "includesStr (a @ ''[*]'' @ b) ''[*]''"
  by (induction a) (simp_all add: startsWith_def)


lemma walk_append_missing:
  "walk h v ks1 JUndefined = Inr r \<Longrightarrow> isNullish r \<Longrightarrow> walk h v (ks1 @ ks2) d = Inr d"
proof (induction ks1 arbitrary: v)
  case Nil
  then have "isNullish v" by (auto split: if_splits)
  then show ?case by (cases ks2) simp_all
next
  case (Cons key ks1)
  show ?case
  proof (cases "isNullish v")
    case True
    then show ?thesis by simp
  next
    case False
    show ?thesis
    proof (cases "getProp h v key")
      case (Inl e)
      with False Cons.prems show ?thesis by simp
    next
      case (Inr v')
      with False Cons.prems have "walk h v' ks1 JUndefined = Inr r" by simp
      from Cons.IH [OF this Cons.prems(2)] show ?thesis
        using False Inr by simp
    qed
  qed
qed

text \<open>An error of the loop is the error of a property read on a present value.\<close>

lemma walk_raises:
  "walk h v ks d = Inl e \<Longrightarrow>
   \<exists>ks1 key ks2 v'. ks = ks1 @ key # ks2 \<and> walk h v ks1 JUndefined = Inr v'
      \<and> \<not> isNullish v' \<and> getProp h v' key = Inl e"
proof (induction ks arbitrary: v)
  case Nil
  then show ?case by simp
next
  case (Cons key ks)
  have nn: "\<not> isNullish v"
    using Cons.prems by (auto split: if_splits)
  show ?case
  proof (cases "getProp h v key")
    case (Inl e')
    with nn Cons.prems have "e' = e" by simp
    with Inl nn have "key # ks = [] @ key # ks \<and> walk h v [] JUndefined = Inr v
        \<and> \<not> isNullish v \<and> getProp h v key = Inl e"
      by simp
    then show ?thesis by blast
  next
    case (Inr v1)
    with nn Cons.prems have "walk h v1 ks d = Inl e" by simp
    from Cons.IH [OF this] obtain ks1 k ks2 v' where
      ks: "ks = ks1 @ k # ks2" and w: "walk h v1 ks1 JUndefined = Inr v'"
      and p: "\<not> isNullish v'" "getProp h v' k = Inl e"
      by blast
    have "key # ks = (key # ks1) @ k # ks2 \<and> walk h v (key # ks1) JUndefined = Inr v'
        \<and> \<not> isNullish v' \<and> getProp h v' k = Inl e"
      using ks w p nn Inr by simp
    then show ?thesis by blast
  qed
qed


lemma getNestedValue_wild_split:
  assumes ap: "\<not> includesStr arrayPath ''[*]''"
  shows "\<exists>b others. splitOn ''[*]'' (arrayPath @ ''[*]'' @ rest) = arrayPath # b # others
     \<and> (\<not> includesStr rest ''[*]'' \<longrightarrow> b = rest)"
proof -
  obtain b others where b: "splitOn ''[*]'' rest = b # others"
    using splitOn_not_Nil [of "''[*]''" rest] by (cases "splitOn ''[*]'' rest") auto
  have "splitOn ''[*]'' (arrayPath @ ''[*]'' @ rest) = arrayPath # b # others"
    using splitOn_wild_concat [OF ap, of rest] b by simp
  moreover have "\<not> includesStr rest ''[*]'' \<longrightarrow> b = rest"
    using b splitOn_no_sep [of rest "''[*]''"] by auto
  ultimately show ?thesis by blast
qed

text \<open>The query for \<open>arrayPath[*]rest\<close>, in terms of the query for \<open>arrayPath\<close> and the
  queries for the remainder against the elements.\<close>

lemma getNestedValue_wild_concat:
  assumes ap: "\<not> includesStr arrayPath ''[*]''" and r: "\<not> includesStr rest ''[*]''"
  shows "getNestedValue h obj (arrayPath @ ''[*]'' @ rest) d =
     (case getNestedValue h obj arrayPath (JArr []) of
        Inl e \<Rightarrow> Inl e
      | Inr array \<Rightarrow>
          (case arrayItems h array of
             None \<Rightarrow> Inr (orDefault d JNull)
           | Some items \<Rightarrow>
               (case mapE (\<lambda>item. if restPathOf rest \<noteq> []
                                 then getNestedValue h item (restPathOf rest) JUndefined
                                 else Inr item) items of
                  Inl e \<Rightarrow> Inl e
                | Inr results \<Rightarrow> Inr (JArr results))))"
proof -
  from getNestedValue_wild_split [OF ap, of rest] r obtain others where
    sp: "splitOn ''[*]'' (arrayPath @ ''[*]'' @ rest) = arrayPath # rest # others"
    by blast
  show ?thesis
    by (rule getNestedValue_wild [OF includes_wild_concat sp])
qed

text \<open>
  C4. The claim fails where the resolution of the remainder against an element raises, and
  where nothing precedes the marker. What holds, for a path \<open>arrayPath[*]rest\<close> with one
  wildcard marker: when the part before the marker resolves to a sequence and the remainder
  (without its leading dot) resolves against each element, the query returns the sequence
  of the per-element results, and with no remainder the elements themselves; when the
  resolution against some element raises, the query raises; when nothing precedes the
  marker the query returns the empty sequence, whatever the document. In particular
  \<open>a[*].b\<close> against \<open>{a:[{b:1},{b:2},{}]}\<close> yields \<open>[1,2,null]\<close>, no prototype of an
  object having a property \<open>b\<close>.
\<close>

theorem getNestedValue_wildcard_maps_remainder:
  "(\<not> includesStr arrayPath ''[*]'' \<and> \<not> includesStr rest ''[*]''
      \<and> getNestedValue h obj arrayPath (JArr []) = Inr array
      \<and> arrayItems h array = Some items
    \<longrightarrow> (length results = length items
           \<and> (\<forall>i<length items.
                 if restPathOf rest = [] then results ! i = items ! i
                 else getNestedValue h (items ! i) (restPathOf rest) JUndefined
                        = Inr (results ! i))
          \<longrightarrow> getNestedValue h obj (arrayPath @ ''[*]'' @ rest) d = Inr (JArr results))
        \<and> (restPathOf rest \<noteq> [] \<and> i < length items
             \<and> getNestedValue h (items ! i) (restPathOf rest) JUndefined = Inl e
          \<longrightarrow> (\<exists>e'. getNestedValue h obj (arrayPath @ ''[*]'' @ rest) d = Inl e')))
   \<and> getNestedValue h obj (''[*]'' @ rest) d = Inr (JArr [])
   \<and> (inherited h (JObj []) ''b'' = Inr JUndefined
      \<longrightarrow> getNestedValue h
            (JObj [(''a'', JArr [JObj [(''b'', JNum (Fin 1))], JObj [(''b'', JNum (Fin 2))],
                                 JObj []])])
            ''a[*].b'' d
          = Inr (JArr [JNum (Fin 1), JNum (Fin 2), JNull]))"
proof (intro conjI impI)
  let ?f = "\<lambda>item. if restPathOf rest \<noteq> [] then getNestedValue h item (restPathOf rest) JUndefined
                  else Inr item"
  assume a: "\<not> includesStr arrayPath ''[*]'' \<and> \<not> includesStr rest ''[*]''
      \<and> getNestedValue h obj arrayPath (JArr []) = Inr array
      \<and> arrayItems h array = Some items"
  then have eq: "getNestedValue h obj (arrayPath @ ''[*]'' @ rest) d =
      (case mapE ?f items of Inl e \<Rightarrow> Inl e | Inr results \<Rightarrow> Inr (JArr results))"
    by (subst getNestedValue_wild_concat) simp_all
  {
    assume b: "length results = length items
           \<and> (\<forall>i<length items.
                 if restPathOf rest = [] then results ! i = items ! i
                 else getNestedValue h (items ! i) (restPathOf rest) JUndefined
                        = Inr (results ! i))"
    have "\<forall>i<length items. ?f (items ! i) = Inr (results ! i)"
      using b by (auto split: if_splits)
    with b have "mapE ?f items = Inr results"
      by (intro mapE_all_Inr) simp_all
    with eq show "getNestedValue h obj (arrayPath @ ''[*]'' @ rest) d = Inr (JArr results)"
      by simp
  }
  {
    assume c: "restPathOf rest \<noteq> [] \<and> i < length items
             \<and> getNestedValue h (items ! i) (restPathOf rest) JUndefined = Inl e"
    then have "?f (items ! i) = Inl e" by simp
    with c obtain e' where "mapE ?f items = Inl e'"
      using mapE_some_Inl [of i items ?f e] by blast
    with eq show "\<exists>e'. getNestedValue h obj (arrayPath @ ''[*]'' @ rest) d = Inl e'"
      by simp
  }
next
  obtain b others where sp: "splitOn ''[*]'' ([] @ ''[*]'' @ rest) = [] # b # others"
    using getNestedValue_wild_split [of "[]" rest] by auto
  have "getNestedValue h obj ([] @ ''[*]'' @ rest) d = Inr (JArr [])"
    by (subst getNestedValue_wild [OF includes_wild_concat sp])
       (simp add: getNestedValue_empty orDefault_def)
  then show "getNestedValue h obj (''[*]'' @ rest) d = Inr (JArr [])"
    by simp
next
  assume "inherited h (JObj []) ''b'' = Inr JUndefined"
  then show "getNestedValue h
        (JObj [(''a'', JArr [JObj [(''b'', JNum (Fin 1))], JObj [(''b'', JNum (Fin 2))], JObj []])])
        ''a[*].b'' d
      = Inr (JArr [JNum (Fin 1), JNum (Fin 2), JNull])"
    by (simp add: getNestedValue.simps orDefault_def startsWith_def restPathOf_def pathKeys_def
        isDigit_def)
qed

theorem getNestedValue_wildcard_maps_remainder_witness:
  "\<not> includesStr ''a'' ''[*]'' \<and> \<not> includesStr ''.b'' ''[*]''
   \<and> getNestedValue exampleHost (JObj [(''a'', JArr [JObj [(''b'', JNum (Fin 1))], JObj []])])
         ''a'' (JArr [])
       = Inr (JArr [JObj [(''b'', JNum (Fin 1))], JObj []])
   \<and> arrayItems exampleHost (JArr [JObj [(''b'', JNum (Fin 1))], JObj []])
       = Some [JObj [(''b'', JNum (Fin 1))], JObj []]
   \<and> getNestedValue exampleHost (JObj [(''b'', JNum (Fin 1))]) ''b'' JUndefined
       = Inr (JNum (Fin 1))
   \<and> getNestedValue exampleHost (JObj []) ''b'' JUndefined = Inr JNull
   \<and> getNestedValue exampleHost (JObj [(''a'', JArr [JObj [(''b'', JNum (Fin 1))], JObj []])])
         ''a[*].b'' (JStr ''none'')
       = Inr (JArr [JNum (Fin 1), JNull])
   \<and> inherited exampleHost (JObj []) ''b'' = Inr JUndefined
   \<and> getNestedValue exampleHost
         (JObj [(''a'', JArr [JObj [(''b'', JNum (Fin 1))], JObj [(''b'', JNum (Fin 2))],
                              JObj []])])
         ''a[*].b'' (JStr ''none'')
       = Inr (JArr [JNum (Fin 1), JNum (Fin 2), JNull])"
proof -
  let ?items = "[JObj [(''b'', JNum (Fin 1))], JObj []]"
  let ?doc = "JObj [(''a'', JArr ?items)]"
  let ?results = "[JNum (Fin 1), JNull]"
  note t = getNestedValue_wildcard_maps_remainder
    [of "''a''" "''.b''" exampleHost ?doc "JArr ?items" ?items ?results "JStr ''none''"]
  have h1: "\<not> includesStr ''a'' ''[*]''" and h2: "\<not> includesStr ''.b'' ''[*]''"
    by (simp_all add: startsWith_def)
  have h3: "getNestedValue exampleHost ?doc ''a'' (JArr []) = Inr (JArr ?items)"
    by (simp add: getNestedValue.simps orDefault_def startsWith_def pathKeys_def)
  have h4: "arrayItems exampleHost (JArr ?items) = Some ?items"
    by simp
  have e0: "getNestedValue exampleHost (JObj [(''b'', JNum (Fin 1))]) ''b'' JUndefined
      = Inr (JNum (Fin 1))"
    by (simp add: getNestedValue.simps orDefault_def startsWith_def pathKeys_def)
  have e1: "getNestedValue exampleHost (JObj []) ''b'' JUndefined = Inr JNull"
    by (simp add: getNestedValue.simps orDefault_def startsWith_def pathKeys_def exampleHost_def)
  have rp: "restPathOf ''.b'' = ''b''"
    by (simp add: restPathOf_def startsWith_def)
  have each: "length ?results = length ?items
      \<and> (\<forall>i<length ?items.
            if restPathOf ''.b'' = [] then ?results ! i = ?items ! i
            else getNestedValue exampleHost (?items ! i) (restPathOf ''.b'') JUndefined
                   = Inr (?results ! i))"
    using e0 e1 by (simp add: rp less_Suc_eq)
  have r: "getNestedValue exampleHost ?doc (''a'' @ ''[*]'' @ ''.b'') (JStr ''none'')
      = Inr (JArr ?results)"
    by (rule mp [OF mp [OF t [THEN conjunct1] conjI [OF h1 conjI [OF h2 conjI [OF h3 h4]]],
            THEN conjunct1] each])
  have h5: "inherited exampleHost (JObj []) ''b'' = Inr JUndefined"
    by (simp add: exampleHost_def)
  have ex: "getNestedValue exampleHost
         (JObj [(''a'', JArr [JObj [(''b'', JNum (Fin 1))], JObj [(''b'', JNum (Fin 2))],
                              JObj []])])
         ''a[*].b'' (JStr ''none'')
       = Inr (JArr [JNum (Fin 1), JNum (Fin 2), JNull])"
    by (rule mp [OF t [THEN conjunct2, THEN conjunct2] h5])
  from r have r': "getNestedValue exampleHost ?doc ''a[*].b'' (JStr ''none'') = Inr (JArr ?results)"
    by simp
  show ?thesis
    by (rule conjI [OF h1 conjI [OF h2 conjI [OF h3 conjI [OF h4 conjI [OF e0 conjI [OF e1
          conjI [OF r' conjI [OF h5 ex]]]]]]]])
qed

theorem getNestedValue_wildcard_raises_counterexample:
  "getNestedValue exampleHost (JObj [(''a'', JArr [JObj []])]) ''a[*].constructor.caller''
       JUndefined
     = Inl TypeError
   \<and> getNestedValue exampleHost (JArr [JObj [(''b'', JNum (Fin 1))]]) ''[*].b'' JUndefined
     = Inr (JArr [])"
  by (simp add: getNestedValue.simps orDefault_def startsWith_def restPathOf_def pathKeys_def
      isDigit_def exampleHost_def)

text \<open>
  C5. The claim fails for a path with a wildcard marker: a missing value before the marker
  gives the empty sequence, not the default. What holds, for a path without a wildcard
  marker: when the loop over some first keys of the path ends on a missing value
  (\<open>undefined\<close> or \<open>null\<close>), the query returns the supplied default, or \<open>null\<close> when none
  is supplied, and so does not raise; and a query that raises does so at the read of a
  property of a present value, which the host raises (an inherited accessor), never at a
  missing value.
\<close>

theorem getNestedValue_missing_gives_default:
  "(\<not> includesStr pathStr ''[*]'' \<and> pathKeys pathStr = ks1 @ ks2
        \<and> walk h obj ks1 JUndefined = Inr m \<and> isNullish m
      \<longrightarrow> getNestedValue h obj pathStr d = Inr (orDefault d JNull))
   \<and> (\<not> includesStr pathStr ''[*]'' \<and> getNestedValue h obj pathStr d = Inl e
      \<longrightarrow> (\<exists>ks1 key ks2 v. pathKeys pathStr = ks1 @ key # ks2
             \<and> walk h obj ks1 JUndefined = Inr v \<and> \<not> isNullish v
             \<and> getProp h v key = Inl e))"
proof (intro conjI impI)
  assume a: "\<not> includesStr pathStr ''[*]'' \<and> pathKeys pathStr = ks1 @ ks2
        \<and> walk h obj ks1 JUndefined = Inr m \<and> isNullish m"
  show "getNestedValue h obj pathStr d = Inr (orDefault d JNull)"
  proof (cases "pathStr = []")
    case True
    then show ?thesis by (simp add: getNestedValue_empty)
  next
    case False
    have "walk h obj (ks1 @ ks2) (orDefault d JNull) = Inr (orDefault d JNull)"
      using a walk_append_missing by blast
    then show ?thesis
      using a False by (simp add: getNestedValue_plain)
  qed
next
  assume b: "\<not> includesStr pathStr ''[*]'' \<and> getNestedValue h obj pathStr d = Inl e"
  then have ne: "pathStr \<noteq> []"
    by (auto simp: getNestedValue_empty)
  have "getNestedValue h obj pathStr d = walk h obj (pathKeys pathStr) (orDefault d JNull)"
    using b ne by (intro getNestedValue_plain) simp_all
  with b have "walk h obj (pathKeys pathStr) (orDefault d JNull) = Inl e"
    by simp
  then show "\<exists>ks1 key ks2 v. pathKeys pathStr = ks1 @ key # ks2
             \<and> walk h obj ks1 JUndefined = Inr v \<and> \<not> isNullish v
             \<and> getProp h v key = Inl e"
    by (rule walk_raises)
qed

theorem getNestedValue_missing_gives_default_witness:
  "\<not> includesStr ''a.b.c'' ''[*]'' \<and> pathKeys ''a.b.c'' = [''a'', ''b''] @ [''c'']
   \<and> walk exampleHost (JObj [(''a'', JObj [])]) [''a'', ''b''] JUndefined = Inr JUndefined
   \<and> isNullish JUndefined
   \<and> getNestedValue exampleHost (JObj [(''a'', JObj [])]) ''a.b.c'' (JStr ''none'')
       = Inr (JStr ''none'')
   \<and> getNestedValue exampleHost (JObj [(''a'', JObj [])]) ''a.b.c'' JUndefined = Inr JNull
   \<and> \<not> includesStr ''constructor.caller'' ''[*]''
   \<and> getNestedValue exampleHost (JObj []) ''constructor.caller'' (JStr ''none'') = Inl TypeError
   \<and> (\<exists>ks1 key ks2 v. pathKeys ''constructor.caller'' = ks1 @ key # ks2
         \<and> walk exampleHost (JObj []) ks1 JUndefined = Inr v \<and> \<not> isNullish v
         \<and> getProp exampleHost v key = Inl TypeError)"
proof -
  let ?doc = "JObj [(''a'', JObj [])]"
  have h: "\<not> includesStr ''a.b.c'' ''[*]'' \<and> pathKeys ''a.b.c'' = [''a'', ''b''] @ [''c'']
     \<and> walk exampleHost ?doc [''a'', ''b''] JUndefined = Inr JUndefined
     \<and> isNullish JUndefined"
    by (simp add: startsWith_def pathKeys_def exampleHost_def)
  have d1: "getNestedValue exampleHost ?doc ''a.b.c'' (JStr ''none'')
      = Inr (orDefault (JStr ''none'') JNull)"
    by (rule mp [OF getNestedValue_missing_gives_default
          [of "''a.b.c''" "[''a'', ''b'']" "[''c'']" exampleHost ?doc JUndefined "JStr ''none''",
           THEN conjunct1] h])
  have d2: "getNestedValue exampleHost ?doc ''a.b.c'' JUndefined
      = Inr (orDefault JUndefined JNull)"
    by (rule mp [OF getNestedValue_missing_gives_default
          [of "''a.b.c''" "[''a'', ''b'']" "[''c'']" exampleHost ?doc JUndefined JUndefined,
           THEN conjunct1] h])
  have g1: "\<not> includesStr ''constructor.caller'' ''[*]''"
    by (simp add: startsWith_def)
  have g2: "getNestedValue exampleHost (JObj []) ''constructor.caller'' (JStr ''none'')
      = Inl TypeError"
    by (simp add: getNestedValue.simps orDefault_def startsWith_def pathKeys_def exampleHost_def)
  have g3: "\<exists>ks1 key ks2 v. pathKeys ''constructor.caller'' = ks1 @ key # ks2
         \<and> walk exampleHost (JObj []) ks1 JUndefined = Inr v \<and> \<not> isNullish v
         \<and> getProp exampleHost v key = Inl TypeError"
    by (rule mp [OF getNestedValue_missing_gives_default
          [where pathStr = "''constructor.caller''" and h = exampleHost and obj = "JObj []"
             and d = "JStr ''none''" and e = TypeError, THEN conjunct2]
          conjI [OF g1 g2]])
  have d1': "getNestedValue exampleHost ?doc ''a.b.c'' (JStr ''none'') = Inr (JStr ''none'')"
    using d1 by (simp add: orDefault_def)
  have d2': "getNestedValue exampleHost ?doc ''a.b.c'' JUndefined = Inr JNull"
    using d2 by (simp add: orDefault_def)
  show ?thesis
    using h d1' d2' g1 g2 g3 by simp
qed

theorem getNestedValue_wildcard_missing_counterexample:
  "getProp exampleHost (JObj []) ''a'' = Inr JUndefined
   \<and> getNestedValue exampleHost (JObj []) ''a[*].b'' (JStr ''none'') = Inr (JArr [])
   \<and> getNestedValue exampleHost (JObj []) ''a[*].b'' (JStr ''none'') \<noteq> Inr (JStr ''none'')"
  by (simp add: getNestedValue.simps orDefault_def startsWith_def restPathOf_def pathKeys_def
      isDigit_def exampleHost_def)



section \<open>Numbers and their text\<close>

function natStr :: "nat \<Rightarrow> string" where
  "natStr n = (if n < 10 then [''0123456789'' ! n]
               else natStr (n div 10) @ [''0123456789'' ! (n mod 10)])"
  by pat_completeness auto
termination
  by (relation "measure id") auto

declare natStr.simps [simp del]

definition intStr :: "int \<Rightarrow> string" where
  "intStr i = (if i < 0 then ''-'' @ natStr (nat (- i)) else natStr (nat i))"

text \<open>\<open>String(n)\<close> for a number.\<close>

definition numStr :: "host \<Rightarrow> jsnum \<Rightarrow> string" where
  "numStr h n =
     (case n of
        NaN \<Rightarrow> ''NaN''
      | PosInf \<Rightarrow> ''Infinity''
      | NegInf \<Rightarrow> ''-Infinity''
      | NegZero \<Rightarrow> ''0''
      | Fin q \<Rightarrow>
          if q = of_int \<lfloor>q\<rfloor> \<and> \<bar>q\<bar> < 10 ^ 21 then intStr \<lfloor>q\<rfloor>
          else numberToString h q)"

text \<open>\<open>array.join(sep)\<close> on the texts of the elements.\<close>

fun joinWith :: "string \<Rightarrow> string list \<Rightarrow> string" where
  "joinWith sep [] = []"
| "joinWith sep [s] = s"
| "joinWith sep (s # t # ss) = s @ sep @ joinWith sep (t # ss)"

text \<open>\<open>String(value)\<close>. An array prints its elements joined by commas, \<open>null\<close> and
  \<open>undefined\<close> elements as nothing.\<close>

fun toStr :: "host \<Rightarrow> jsval \<Rightarrow> string" where
  "toStr h JUndefined = ''undefined''"
| "toStr h JNull = ''null''"
| "toStr h (JBool b) = (if b then ''true'' else ''false'')"
| "toStr h (JNum n) = numStr h n"
| "toStr h (JStr s) = s"
| "toStr h (JArr xs) = joinWith '','' (map (\<lambda>x. if isNullish x then [] else toStr h x) xs)"
| "toStr h (JObj kvs) = ''[object Object]''"
| "toStr h (JHostObject n) = hostToString h n"

text \<open>
  The exponent part of a decimal literal at the head of \<open>s\<close>: \<open>e\<close> or \<open>E\<close>, an optional
  sign and at least one digit. The result is the exponent and what follows it; without a
  complete exponent part the exponent is \<open>0\<close> and nothing is consumed.
\<close>

definition exponentPart :: "string \<Rightarrow> int \<times> string" where
  "exponentPart s =
     (if s \<noteq> [] \<and> (hd s = CHR ''e'' \<or> hd s = CHR ''E'') then
        (let t = tl s;
             neg = startsWith t ''-'';
             u = (if startsWith t ''-'' \<or> startsWith t ''+'' then tl t else t);
             ds = takeWhile isDigit u
         in if ds = [] then (0, s)
            else ((if neg then - int (decimalVal ds) else int (decimalVal ds)),
                  dropWhile isDigit u))
      else (0, s))"

text \<open>The value \<open>m * 10^e\<close>.\<close>

definition scale10 :: "nat \<Rightarrow> int \<Rightarrow> rat" where
  "scale10 m e = (if 0 \<le> e then of_nat m * 10 ^ nat e else of_nat m / 10 ^ nat (- e))"

text \<open>The power \<open>2^e\<close> for an integer \<open>e\<close>.\<close>

definition pow2 :: "int \<Rightarrow> rat" where
  "pow2 e = (if 0 \<le> e then 2 ^ nat e else 1 / 2 ^ nat (- e))"

text \<open>The integer part of the binary logarithm of a positive integer.\<close>

function floorLog2 :: "nat \<Rightarrow> nat" where
  "floorLog2 n = (if n < 2 then 0 else Suc (floorLog2 (n div 2)))"
  by pat_completeness auto
termination
  by (relation "measure id") auto

declare floorLog2.simps [simp del]

text \<open>The binary exponent of a positive rational \<open>q\<close>: the \<open>e\<close> with
  \<open>2^e \<le> q < 2^(e+1)\<close>.\<close>

definition exponentOf :: "rat \<Rightarrow> int" where
  "exponentOf q =
     (if 1 \<le> q then int (floorLog2 (nat \<lfloor>q\<rfloor>))
      else - int (Suc (floorLog2 (nat \<lceil>1 / q\<rceil> - 1))))"

text \<open>The nearest integer, a tie going to the even one.\<close>

definition roundHalfEven :: "rat \<Rightarrow> int" where
  "roundHalfEven x =
     (let f = \<lfloor>x\<rfloor>; r = x - of_int f
      in if r < 1 / 2 then f
         else if 1 / 2 < r then f + 1
         else if even f then f else f + 1)"

text \<open>
  The binary64 value of a real number: the nearest multiple of the unit in the last place
  (53 significant bits, the exponent not below \<open>-1022\<close>), ties to even; a magnitude that
  rounds to \<open>2^1024\<close> or more is an infinity, one that rounds to nothing is a zero with
  the sign of the number.
\<close>

definition toBinary64 :: "rat \<Rightarrow> jsnum" where
  "toBinary64 q =
     (if q = 0 then Fin 0
      else (let a = \<bar>q\<bar>;
                e = max (exponentOf a) (- 1022);
                ulp = pow2 (e - 52);
                n = roundHalfEven (a / ulp);
                r = of_int n * ulp
            in if pow2 1024 \<le> r then (if q < 0 then NegInf else PosInf)
               else if n = 0 then (if q < 0 then NegZero else Fin 0)
               else Fin (if q < 0 then - r else r)))"

text \<open>
  \<open>parseFloat\<close> of a string: leading white space is skipped, then the longest prefix that
  is a decimal literal (a sign, then \<open>Infinity\<close> or digits with an optional fraction and
  exponent) is the value, rounded to binary64; without such a prefix the result is NaN.
\<close>

definition parseFloatStr :: "string \<Rightarrow> jsnum" where
  "parseFloatStr s =
     (let t = dropWhile isSpace s;
          neg = startsWith t ''-'';
          u = (if startsWith t ''-'' \<or> startsWith t ''+'' then tl t else t)
      in if startsWith u ''Infinity'' then (if neg then NegInf else PosInf)
         else
           (let ip = takeWhile isDigit u;
                r1 = dropWhile isDigit u;
                fp = (if startsWith r1 ''.'' then takeWhile isDigit (tl r1) else []);
                r2 = (if startsWith r1 ''.'' then dropWhile isDigit (tl r1) else r1);
                m = decimalVal (ip @ fp);
                e = fst (exponentPart r2) - int (length fp)
            in if ip = [] \<and> fp = [] then NaN
               else if m = 0 then (if neg then NegZero else Fin 0)
               else toBinary64 (if neg then - scale10 m e else scale10 m e)))"

text \<open>
  \<open>parseFloat(value)\<close> parses \<open>String(value)\<close>. For a number that is the number itself,
  but for negative zero, whose text is \<open>0\<close>.
\<close>

fun parseFloat :: "host \<Rightarrow> jsval \<Rightarrow> jsnum" where
  "parseFloat h (JNum n) = (if n = NegZero then Fin 0 else n)"
| "parseFloat h v = parseFloatStr (toStr h v)"

text \<open>A magnitude below half the least positive binary64 value rounds to zero, so a
  decimal literal that small parses to zero.\<close>

lemma pow2_pos: "0 < pow2 e"
  by (simp add: pow2_def)

lemma pow2_powi: "pow2 e = power_int 2 e"
  by (simp add: pow2_def power_int_def field_simps)

lemma pow2_mono: "a \<le> b \<Longrightarrow> pow2 a \<le> pow2 b"
  unfolding pow2_powi by (rule power_int_increasing) simp_all

lemma roundHalfEven_small: "0 \<le> x \<Longrightarrow> x < 1 / 2 \<Longrightarrow> roundHalfEven x = 0"
proof -
  assume a: "0 \<le> x" "x < 1 / 2"
  then have "\<lfloor>x\<rfloor> = 0" by (simp add: floor_eq_iff)
  then show ?thesis using a by (simp add: roundHalfEven_def Let_def)
qed

lemma toBinary64_underflow:
  assumes "0 < q" and "q < pow2 (- 1075)"
  shows "toBinary64 q = Fin 0"
proof -
  define e where "e = max (exponentOf q) (- 1022)"
  have "pow2 (- 1074) \<le> pow2 (e - 52)"
    by (rule pow2_mono) (simp add: e_def)
  moreover have "pow2 (- 1075) = pow2 (- 1074) / 2"
    by (simp add: pow2_def)
  ultimately have "q < pow2 (e - 52) / 2"
    using assms(2) by linarith
  then have "q / pow2 (e - 52) < 1 / 2"
    using pow2_pos [of "e - 52"] by (simp add: field_simps)
  moreover have "0 \<le> q / pow2 (e - 52)"
    using assms(1) pow2_pos [of "e - 52"] by simp
  ultimately have "roundHalfEven (q / pow2 (e - 52)) = 0"
    by (intro roundHalfEven_small)
  then show ?thesis
    using assms(1) pow2_pos [of 1024] by (simp add: toBinary64_def Let_def e_def [symmetric])
qed

lemma parseFloatStr_underflow: "parseFloatStr ''1e-400'' = Fin 0"
proof -
  have "(2::rat) ^ 1075 < 10 ^ 400" by simp
  then have "(1::rat) / 10 ^ 400 < 1 / 2 ^ 1075"
    by (simp add: field_simps)
  then have "toBinary64 (1 / 10 ^ 400) = Fin 0"
    by (intro toBinary64_underflow) (simp_all add: pow2_def)
  then show ?thesis
    by (simp add: parseFloatStr_def startsWith_def isSpace_def isDigit_def Let_def
        decimalVal_def digitVal_def exponentPart_def scale10_def)
qed

text \<open>\<open>a === b\<close> on numbers: NaN equals nothing, the two zeros are equal.\<close>

definition numEq :: "jsnum \<Rightarrow> jsnum \<Rightarrow> bool" where
  "numEq a b =
     (a \<noteq> NaN \<and> b \<noteq> NaN \<and>
      (a = b \<or> (a = NegZero \<and> b = Fin 0) \<or> (a = Fin 0 \<and> b = NegZero)))"

text \<open>Digits in groups of three, separated by commas.\<close>

function group3 :: "string \<Rightarrow> string" where
  "group3 s = (if length s \<le> 3 then s
               else group3 (take (length s - 3) s) @ '','' @ drop (length s - 3) s)"
  by pat_completeness auto
termination
  by (relation "measure length") auto

declare group3.simps [simp del]

definition padStart :: "nat \<Rightarrow> char \<Rightarrow> string \<Rightarrow> string" where
  "padStart n c s = replicate (n - length s) c @ s"

text \<open>
  The text of a magnitude in the \<open>en-US\<close> locale with exactly \<open>d\<close> fraction digits: rounded
  half away from zero, the integer part grouped.
\<close>

definition fixedDigits :: "rat \<Rightarrow> nat \<Rightarrow> string" where
  "fixedDigits a d =
     (let n = nat \<lfloor>a * 10 ^ d + 1 / 2\<rfloor>
      in group3 (natStr (n div 10 ^ d))
         @ (if d = 0 then [] else ''.'' @ padStart d CHR ''0'' (natStr (n mod 10 ^ d))))"

text \<open>
  \<open>num.toLocaleString("en-US", {minimumFractionDigits: d, maximumFractionDigits: d})\<close>.
  A digit count outside \<open>0..100\<close> raises a RangeError. The infinity sign is written as the
  three bytes of its UTF-8 form.
\<close>

definition toLocaleString :: "jsnum \<Rightarrow> int \<Rightarrow> error + string" where
  "toLocaleString num d =
     (if d < 0 \<or> 100 < d then Inl RangeError
      else Inr (case num of
                  NaN \<Rightarrow> ''NaN''
                | PosInf \<Rightarrow> [CHR 0xE2, CHR 0x88, CHR 0x9E]
                | NegInf \<Rightarrow> ''-'' @ [CHR 0xE2, CHR 0x88, CHR 0x9E]
                | NegZero \<Rightarrow> ''-'' @ fixedDigits 0 (nat d)
                | Fin q \<Rightarrow> (if q < 0 then ''-'' else []) @ fixedDigits \<bar>q\<bar> (nat d)))"

lemma floor_numeral_div:
  "\<lfloor>numeral a / numeral b :: rat\<rfloor> = numeral a div numeral b"
  using floor_divide_of_int_eq [of "numeral a" "numeral b", where ?'a = rat] by simp

lemma natStr_small: "n < 10 \<Longrightarrow> natStr n = [''0123456789'' ! n]"
  by (simp add: natStr.simps)

lemma natStr_big: "10 \<le> n \<Longrightarrow> natStr n = natStr (n div 10) @ [''0123456789'' ! (n mod 10)]"
  by (subst natStr.simps) simp

lemma group3_short: "length s \<le> 3 \<Longrightarrow> group3 s = s"
  by (simp add: group3.simps)

lemma group3_long:
  "3 < length s \<Longrightarrow> group3 s = group3 (take (length s - 3) s) @ '','' @ drop (length s - 3) s"
  by (subst group3.simps) simp

lemmas num_eval = toLocaleString_def fixedDigits_def natStr_small natStr_big group3_short
  group3_long padStart_def Let_def floor_numeral_div

section \<open>Annotation\<close>

record position =
  posX :: rat
  posY :: rat
  posWidth :: rat
  posHeight :: rat

text \<open>\<open>binding.fallback\<close> absent is \<open>None\<close>; \<open>transform\<close> and \<open>condition\<close> likewise.\<close>

record binding =
  path :: string
  transform :: "string option"
  condition :: "string option"
  fallback :: "jsval option"

text \<open>
  The rendering options the renderer reads. \<open>decimalPlaces\<close> is an integer when present,
  \<open>currencySymbol\<close> is the truth value of the option.
\<close>

record format =
  decimalPlaces :: "int option"
  currencySymbol :: bool
  dateFormat :: "string option"
  fontSize :: "rat option"
  checkMark :: "string option"
  align :: "string option"

record field =
  fieldId :: string
  fieldType :: string
  page :: int
  position :: position
  binding :: binding
  format :: "format option"
  nativeFieldId :: "string option"

text \<open>The annotation; \<open>annFields\<close> is its \<open>fields\<close>. The form metadata is not read.\<close>

record annotation =
  annFields :: "field list"

text \<open>\<open>field.format || {}\<close>.\<close>

definition formatOf :: "field \<Rightarrow> format" where
  "formatOf f =
     (case format f of
        Some fmt \<Rightarrow> fmt
      | None \<Rightarrow> \<lparr>decimalPlaces = None, currencySymbol = False, dateFormat = None,
                 fontSize = None, checkMark = None, align = None\<rparr>)"

text \<open>A field for the examples: on page 1, with the given type, data path and native
  identifier, no transform, condition, fallback or format.\<close>

definition exampleField :: "string \<Rightarrow> string \<Rightarrow> string option \<Rightarrow> field" where
  "exampleField ty p nid =
     \<lparr>fieldId = p, fieldType = ty, page = 1,
      position = \<lparr>posX = 504, posY = 330, posWidth = 72, posHeight = 12\<rparr>,
      binding = \<lparr>path = p, transform = None, condition = None, fallback = None\<rparr>,
      format = None, nativeFieldId = nid\<rparr>"

section \<open>Transform Stage\<close>

text \<open>\<open>Boolean(value)\<close>.\<close>

fun truthy :: "jsval \<Rightarrow> bool" where
  "truthy JUndefined = False"
| "truthy JNull = False"
| "truthy (JBool b) = b"
| "truthy (JNum n) = (n \<noteq> Fin 0 \<and> n \<noteq> NegZero \<and> n \<noteq> NaN)"
| "truthy (JStr s) = (s \<noteq> [])"
| "truthy (JArr xs) = True"
| "truthy (JObj kvs) = True"
| "truthy (JHostObject n) = True"

text \<open>\<open>a + b\<close> on numbers; the sum of finite values is rounded to binary64.\<close>

fun addNum :: "jsnum \<Rightarrow> jsnum \<Rightarrow> jsnum" where
  "addNum NaN b = NaN"
| "addNum a NaN = NaN"
| "addNum PosInf NegInf = NaN"
| "addNum NegInf PosInf = NaN"
| "addNum PosInf b = PosInf"
| "addNum a PosInf = PosInf"
| "addNum NegInf b = NegInf"
| "addNum a NegInf = NegInf"
| "addNum NegZero b = b"
| "addNum a NegZero = a"
| "addNum (Fin a) (Fin b) = toBinary64 (a + b)"

text \<open>\<open>parseFloat(v) || 0\<close>.\<close>

definition numOrZero :: "jsnum \<Rightarrow> jsnum" where
  "numOrZero n = (if n = NaN \<or> n = Fin 0 \<or> n = NegZero then Fin 0 else n)"

definition applyTransform :: "host \<Rightarrow> jsval \<Rightarrow> string option \<Rightarrow> jsval" where
  "applyTransform h v name =
     (case name of
        None \<Rightarrow> v
      | Some t \<Rightarrow>
          if t = [] then v
          else if t = ''uppercase'' then JStr (toUpperCase h (toStr h v))
          else if t = ''lowercase'' then JStr (toLowerCase h (toStr h v))
          else if t = ''trim'' then JStr (trim (toStr h v))
          else if t = ''sum'' then
            (case arrayItems h v of
               Some xs \<Rightarrow> JNum (foldl (\<lambda>sum x. addNum sum (numOrZero (parseFloat h x))) (Fin 0) xs)
             | None \<Rightarrow> v)
          else if t = ''count'' then
            (case arrayItems h v of
               Some xs \<Rightarrow> JNum (Fin (of_nat (length xs)))
             | None \<Rightarrow> JNum (Fin 0))
          else v)"

section \<open>Value Formatter\<close>

text \<open>\<open>s.replace(pat, rep)\<close> for a string pattern: the first occurrence is replaced.\<close>

fun replaceFirst :: "string \<Rightarrow> string \<Rightarrow> string \<Rightarrow> string" where
  "replaceFirst pat rep [] = (if pat = [] then rep else [])"
| "replaceFirst pat rep (c # cs) =
     (if startsWith (c # cs) pat then rep @ drop (length pat) (c # cs)
      else c # replaceFirst pat rep cs)"

text \<open>The digits of \<open>String(value)\<close>: \<open>String(value).replace(/\D/g, "")\<close>.\<close>

definition digitsOf :: "host \<Rightarrow> jsval \<Rightarrow> string" where
  "digitsOf h v = filter isDigit (toStr h v)"

text \<open>\<open>formatValue(value, field)\<close> of the generic renderer. The result is a string or,
  for a checkbox, a boolean.\<close>

definition formatValue :: "host \<Rightarrow> jsval \<Rightarrow> field \<Rightarrow> error + jsval" where
  "formatValue h v f =
     (if v = JNull \<or> v = JUndefined \<or> v = JStr [] then Inr (JStr [])
      else if fieldType f = ''currency'' then
        (let num = parseFloat h v in
         if num = NaN then Inr (JStr [])
         else case toLocaleString num
                     (case decimalPlaces (formatOf f) of None \<Rightarrow> 2 | Some d \<Rightarrow> d) of
                Inl e \<Rightarrow> Inl e
              | Inr formatted \<Rightarrow>
                  Inr (JStr (if currencySymbol (formatOf f) then ''$'' @ formatted
                             else formatted)))
      else if fieldType f = ''number'' then
        (let n = parseFloat h v in
         if n = NaN then Inr (JStr [])
         else case toLocaleString n
                     (case decimalPlaces (formatOf f) of None \<Rightarrow> 0 | Some d \<Rightarrow> d) of
                Inl e \<Rightarrow> Inl e
              | Inr formatted \<Rightarrow> Inr (JStr formatted))
      else if fieldType f = ''ssn'' then
        (let digits = digitsOf h v in
         if length digits = 9
         then Inr (JStr (take 3 digits @ ''-'' @ take 2 (drop 3 digits) @ ''-'' @ drop 5 digits))
         else Inr (JStr digits))
      else if fieldType f = ''ein'' then
        (let einDigits = digitsOf h v in
         if length einDigits = 9
         then Inr (JStr (take 2 einDigits @ ''-'' @ drop 2 einDigits))
         else Inr (JStr einDigits))
      else if fieldType f = ''date'' then
        (let pattern = (case dateFormat (formatOf f) of
                          None \<Rightarrow> ''MM/DD/YYYY''
                        | Some p \<Rightarrow> if p = [] then ''MM/DD/YYYY'' else p) in
         case parseDate h v of
           None \<Rightarrow> Inr (JStr (toStr h v))
         | Some (yyyy, month, day) \<Rightarrow>
             (let mm = padStart 2 CHR ''0'' (natStr (month + 1));
                  dd = padStart 2 CHR ''0'' (natStr day)
              in Inr (JStr (replaceFirst ''YYYY'' (intStr yyyy)
                             (replaceFirst ''DD'' dd (replaceFirst ''MM'' mm pattern))))))
      else if fieldType f = ''checkbox'' then Inr (JBool (truthy v))
      else Inr (JStr (toStr h v)))"

text \<open>\<open>formatCurrency(value)\<close> of the 1040 pipeline: an amount that is not a number, or
  for which \<open>num === 0\<close>, formats to nothing.\<close>

definition formatCurrency :: "host \<Rightarrow> jsval \<Rightarrow> error + string" where
  "formatCurrency h v =
     (if v = JNull \<or> v = JUndefined \<or> v = JStr [] then Inr []
      else (let num = parseFloat h v in
            if num = NaN \<or> numEq num (Fin 0) then Inr []
            else toLocaleString num 2))"

lemma parseFloat_empty_NaN:
  "parseFloat h JNull = NaN" "parseFloat h JUndefined = NaN" "parseFloat h (JStr []) = NaN"
  by (simp_all add: parseFloatStr_def startsWith_def isSpace_def isDigit_def Let_def)

lemma toLocaleString_zero_2: "toLocaleString (Fin 0) 2 = Inr ''0.00''"
  by (simp add: num_eval)

lemma toLocaleString_negzero_2: "toLocaleString NegZero 2 = Inr ''-0.00''"
  by (simp add: num_eval)

text \<open>
  C2. The claim fails for a checkbox whose value is absent: the formatter returns the empty
  string before it looks at the type. What holds: for every field definition, of every type,
  \<open>null\<close>, \<open>undefined\<close> and the empty string format to the empty string; and for a field of
  type checkbox the value \<open>false\<close> formats to the boolean \<open>false\<close>.
\<close>

theorem formatValue_empty_and_false:
  "formatValue h JNull f = Inr (JStr [])
   \<and> formatValue h JUndefined f = Inr (JStr [])
   \<and> formatValue h (JStr []) f = Inr (JStr [])
   \<and> (fieldType f = ''checkbox'' \<longrightarrow> formatValue h (JBool False) f = Inr (JBool False))"
  by (simp add: formatValue_def)

theorem formatValue_empty_and_false_witness:
  "fieldType \<lparr>fieldId = ''box'', fieldType = ''checkbox'', page = 1,
           position = \<lparr>posX = 0, posY = 0, posWidth = 10, posHeight = 10\<rparr>,
           binding = \<lparr>path = ''filingStatus.single'', transform = None, condition = None,
                      fallback = None\<rparr>,
           format = None, nativeFieldId = None\<rparr> = ''checkbox''
     \<and> formatValue exampleHost (JBool False)
           \<lparr>fieldId = ''box'', fieldType = ''checkbox'', page = 1,
            position = \<lparr>posX = 0, posY = 0, posWidth = 10, posHeight = 10\<rparr>,
            binding = \<lparr>path = ''filingStatus.single'', transform = None, condition = None,
                       fallback = None\<rparr>,
            format = None, nativeFieldId = None\<rparr> = Inr (JBool False)"
proof -
  let ?f = "\<lparr>fieldId = ''box'', fieldType = ''checkbox'', page = 1,
            position = \<lparr>posX = 0, posY = 0, posWidth = 10, posHeight = 10\<rparr>,
            binding = \<lparr>path = ''filingStatus.single'', transform = None, condition = None,
                       fallback = None\<rparr>,
            format = None, nativeFieldId = None\<rparr>"
  have t: "fieldType ?f = ''checkbox''" by simp
  show "fieldType ?f = ''checkbox'' \<and> formatValue exampleHost (JBool False) ?f = Inr (JBool False)"
    using t formatValue_empty_and_false [of exampleHost ?f] by blast
qed

theorem formatValue_checkbox_absent_counterexample:
  "formatValue exampleHost JNull
           \<lparr>fieldId = ''box'', fieldType = ''checkbox'', page = 1,
            position = \<lparr>posX = 0, posY = 0, posWidth = 10, posHeight = 10\<rparr>,
            binding = \<lparr>path = ''filingStatus.single'', transform = None, condition = None,
                       fallback = None\<rparr>,
            format = None, nativeFieldId = None\<rparr> = Inr (JStr [])
     \<and> formatValue exampleHost JNull
           \<lparr>fieldId = ''box'', fieldType = ''checkbox'', page = 1,
            position = \<lparr>posX = 0, posY = 0, posWidth = 10, posHeight = 10\<rparr>,
            binding = \<lparr>path = ''filingStatus.single'', transform = None, condition = None,
                       fallback = None\<rparr>,
            format = None, nativeFieldId = None\<rparr> \<noteq> Inr (JBool False)"
  by (simp add: formatValue_def)

text \<open>
  C3. The claim fails for an input that parses to negative zero, such as the string \<open>-0\<close>:
  it is zero for \<open>num === 0\<close>, and the generic renderer formats it to \<open>-0.00\<close>. What
  holds, for a currency field with default options (no \<open>decimalPlaces\<close>, no currency
  symbol): an input that parses to positive zero formats to \<open>0.00\<close> in the generic renderer,
  one that parses to negative zero to \<open>-0.00\<close>, and both to the empty string in the currency
  formatter of the 1040 pipeline; the input \<open>1234.5\<close> formats to \<open>1,234.50\<close> in the generic
  renderer. An input parses to zero also when it is too small for binary64, as \<open>1e-400\<close>
  is.
\<close>

theorem currency_zero_and_grouping:
  "fieldType f = ''currency'' \<and> decimalPlaces (formatOf f) = None \<and> \<not> currencySymbol (formatOf f)
   \<longrightarrow> (parseFloat h v = Fin 0 \<longrightarrow>
          formatValue h v f = Inr (JStr ''0.00'') \<and> formatCurrency h v = Inr [])
       \<and> (parseFloat h v = NegZero \<longrightarrow>
          formatValue h v f = Inr (JStr ''-0.00'') \<and> formatCurrency h v = Inr [])
       \<and> formatValue h (JNum (Fin (12345 / 10))) f = Inr (JStr ''1,234.50'')"
proof (intro impI conjI)
  assume f: "fieldType f = ''currency'' \<and> decimalPlaces (formatOf f) = None
    \<and> \<not> currencySymbol (formatOf f)"
  have big: "toLocaleString (Fin (12345 / 10)) 2 = Inr ''1,234.50''"
    by (simp add: num_eval)
  show "formatValue h (JNum (Fin (12345 / 10))) f = Inr (JStr ''1,234.50'')"
    using f big by (simp add: formatValue_def)
  {
    assume z: "parseFloat h v = Fin 0"
    have ne: "v \<noteq> JNull" "v \<noteq> JUndefined" "v \<noteq> JStr []"
      using z parseFloat_empty_NaN [of h] by auto
    show "formatValue h v f = Inr (JStr ''0.00'')"
      using f z ne toLocaleString_zero_2 by (simp add: formatValue_def)
    show "formatCurrency h v = Inr []"
      using z ne by (simp add: formatCurrency_def numEq_def)
  }
  {
    assume z: "parseFloat h v = NegZero"
    have ne: "v \<noteq> JNull" "v \<noteq> JUndefined" "v \<noteq> JStr []"
      using z parseFloat_empty_NaN [of h] by auto
    show "formatValue h v f = Inr (JStr ''-0.00'')"
      using f z ne toLocaleString_negzero_2 by (simp add: formatValue_def)
    show "formatCurrency h v = Inr []"
      using z ne by (simp add: formatCurrency_def numEq_def)
  }
qed

theorem currency_zero_and_grouping_witness:
  "fieldType (exampleField ''currency'' ''income.total'' None) = ''currency''
     \<and> parseFloat exampleHost (JStr ''0'') = Fin 0
     \<and> formatValue exampleHost (JStr ''0'') (exampleField ''currency'' ''income.total'' None)
         = Inr (JStr ''0.00'')
     \<and> formatCurrency exampleHost (JStr ''0'') = Inr []
     \<and> parseFloat exampleHost (JStr ''-0.0'') = NegZero
     \<and> formatValue exampleHost (JStr ''-0.0'') (exampleField ''currency'' ''income.total'' None)
         = Inr (JStr ''-0.00'')
     \<and> formatCurrency exampleHost (JStr ''-0.0'') = Inr []
     \<and> parseFloat exampleHost (JStr ''1e-400'') = Fin 0
     \<and> formatValue exampleHost (JStr ''1e-400'') (exampleField ''currency'' ''income.total'' None)
         = Inr (JStr ''0.00'')
     \<and> formatCurrency exampleHost (JStr ''1e-400'') = Inr []"
proof -
  let ?f = "exampleField ''currency'' ''income.total'' None"
  have f: "fieldType ?f = ''currency'' \<and> decimalPlaces (formatOf ?f) = None
      \<and> \<not> currencySymbol (formatOf ?f)"
    by (simp add: formatOf_def exampleField_def)
  have z: "parseFloat exampleHost (JStr ''0'') = Fin 0"
    by (simp add: parseFloatStr_def startsWith_def isSpace_def isDigit_def Let_def
        decimalVal_def digitVal_def exponentPart_def)
  have nz: "parseFloat exampleHost (JStr ''-0.0'') = NegZero"
    by (simp add: parseFloatStr_def startsWith_def isSpace_def isDigit_def Let_def
        decimalVal_def digitVal_def exponentPart_def)
  note t1 = mp [OF currency_zero_and_grouping [of ?f exampleHost "JStr ''0''"] f]
  note t2 = mp [OF currency_zero_and_grouping [of ?f exampleHost "JStr ''-0.0''"] f]
  have a: "formatValue exampleHost (JStr ''0'') ?f = Inr (JStr ''0.00'')
      \<and> formatCurrency exampleHost (JStr ''0'') = Inr []"
    by (rule mp [OF t1 [THEN conjunct1] z])
  have b: "formatValue exampleHost (JStr ''-0.0'') ?f = Inr (JStr ''-0.00'')
      \<and> formatCurrency exampleHost (JStr ''-0.0'') = Inr []"
    by (rule mp [OF t2 [THEN conjunct2, THEN conjunct1] nz])
  have tz: "parseFloat exampleHost (JStr ''1e-400'') = Fin 0"
    by (simp add: parseFloatStr_underflow)
  note t3 = mp [OF currency_zero_and_grouping [of ?f exampleHost "JStr ''1e-400''"] f]
  have c: "formatValue exampleHost (JStr ''1e-400'') ?f = Inr (JStr ''0.00'')
      \<and> formatCurrency exampleHost (JStr ''1e-400'') = Inr []"
    by (rule mp [OF t3 [THEN conjunct1] tz])
  show ?thesis
    using f z nz tz a b c by simp
qed

theorem currency_negative_zero_counterexample:
  "parseFloat exampleHost (JStr ''-0'') = NegZero
   \<and> numEq NegZero (Fin 0)
   \<and> formatValue exampleHost (JStr ''-0'') (exampleField ''currency'' ''income.total'' None)
       = Inr (JStr ''-0.00'')
   \<and> formatCurrency exampleHost (JStr ''-0'') = Inr []"
proof -
  have nz: "parseFloat exampleHost (JStr ''-0'') = NegZero"
    by (simp add: parseFloatStr_def startsWith_def isSpace_def isDigit_def Let_def
        decimalVal_def digitVal_def exponentPart_def)
  have "toLocaleString NegZero 2 = Inr ''-0.00''"
    by (rule toLocaleString_negzero_2)
  then show ?thesis
    using nz by (simp add: formatValue_def formatCurrency_def numEq_def formatOf_def
        exampleField_def)
qed

section \<open>Condition Evaluator\<close>

text \<open>The first result of \<open>f\<close> over the candidates, in their order: the backtracking of
  the regular expression matcher.\<close>

fun firstSome :: "('a \<Rightarrow> 'b option) \<Rightarrow> 'a list \<Rightarrow> 'b option" where
  "firstSome f [] = None"
| "firstSome f (x # xs) = (case f x of Some y \<Rightarrow> Some y | None \<Rightarrow> firstSome f xs)"

text \<open>The counts \<open>n, n - 1, ..., 0\<close>: a greedy \<open>\s*\<close> tries the longest run first.\<close>

definition downFrom :: "nat \<Rightarrow> nat list" where
  "downFrom n = rev [0..<Suc n]"

text \<open>\<open>\s*(.+)$\<close> against \<open>t\<close>: after some of the leading white space, the rest must be
  non-empty and free of line terminators.\<close>

definition matchRest :: "string \<Rightarrow> string option" where
  "matchRest t =
     firstSome (\<lambda>k. let e = drop k t in
                     if e \<noteq> [] \<and> \<not> list_ex isLineTerminator e then Some e else None)
       (downFrom (length (takeWhile isSpace t)))"

text \<open>\<open>(===|!==|==|!=)\s*(.+)$\<close> against \<open>u\<close>: the alternatives in their order.\<close>

definition matchOperator :: "string \<Rightarrow> (string \<times> string) option" where
  "matchOperator u =
     firstSome (\<lambda>operator.
                  if startsWith u operator
                  then map_option (\<lambda>e. (operator, e)) (matchRest (drop (length operator) u))
                  else None)
       [''==='', ''!=='', ''=='', ''!='']"

text \<open>\<open>\s*(===|!==|==|!=)\s*(.+)$\<close> against \<open>u\<close>.\<close>

definition matchSpaceOperator :: "string \<Rightarrow> (string \<times> string) option" where
  "matchSpaceOperator u =
     firstSome (\<lambda>j. matchOperator (drop j u)) (downFrom (length (takeWhile isSpace u)))"

text \<open>
  \<open>condition.match(/^(.+?)\s*(===|!==|==|!=)\s*(.+)$/)\<close>: the lazy first group takes one
  character, then two, ..., none of them a line terminator. The result is the three groups
  \<open>(pathStr, operator, expectedStr)\<close>.
\<close>

definition matchCondition :: "string \<Rightarrow> (string \<times> string \<times> string) option" where
  "matchCondition c =
     firstSome (\<lambda>i. if list_ex isLineTerminator (take i c) then None
                     else map_option (\<lambda>(operator, e). (take i c, operator, e))
                            (matchSpaceOperator (drop i c)))
       [1..<Suc (length c)]"

text \<open>A string of binary, octal or hexadecimal digits after \<open>0b\<close>, \<open>0o\<close> or \<open>0x\<close>.\<close>

definition nonDecimalLiteral :: "string \<Rightarrow> bool" where
  "nonDecimalLiteral s =
     (2 < length s \<and> hd s = CHR ''0'' \<and>
      ((s ! 1 \<in> set ''bB'' \<and> list_all (\<lambda>c. c \<in> set ''01'') (drop 2 s))
       \<or> (s ! 1 \<in> set ''oO'' \<and> list_all (\<lambda>c. c \<in> set ''01234567'') (drop 2 s))
       \<or> (s ! 1 \<in> set ''xX'' \<and> list_all (\<lambda>c. c \<in> set ''0123456789abcdefABCDEF'') (drop 2 s))))"

text \<open>A whole string that is a signed decimal literal or a signed \<open>Infinity\<close>.\<close>

definition decimalLiteral :: "string \<Rightarrow> bool" where
  "decimalLiteral s =
     (let u = (if startsWith s ''-'' \<or> startsWith s ''+'' then tl s else s) in
      u = ''Infinity'' \<or>
      (let ip = takeWhile isDigit u;
           r1 = dropWhile isDigit u;
           fp = (if startsWith r1 ''.'' then takeWhile isDigit (tl r1) else []);
           r2 = (if startsWith r1 ''.'' then dropWhile isDigit (tl r1) else r1)
       in (ip \<noteq> [] \<or> fp \<noteq> []) \<and> snd (exponentPart r2) = []))"

text \<open>\<open>isNaN(s)\<close> for a string: its conversion to a number is NaN unless the string,
  trimmed, is empty or a numeric literal.\<close>

definition stringIsNaN :: "string \<Rightarrow> bool" where
  "stringIsNaN s =
     (let t = trim s in \<not> (t = [] \<or> nonDecimalLiteral t \<or> decimalLiteral t))"

text \<open>The literal on the right of a condition.\<close>

definition parseExpected :: "string \<Rightarrow> jsval" where
  "parseExpected expectedStr =
     (let expected = trim expectedStr in
      if expected = ''true'' then JBool True
      else if expected = ''false'' then JBool False
      else if expected = ''null'' then JNull
      else if \<not> stringIsNaN expected then JNum (parseFloatStr expected)
      else JStr expected)"

text \<open>\<open>a === b\<close> where \<open>b\<close> is a primitive value, as the literal of a condition is: an
  array or an object, of the document or of the host, equals no primitive value.\<close>

fun strictEq :: "jsval \<Rightarrow> jsval \<Rightarrow> bool" where
  "strictEq (JNum a) (JNum b) = numEq a b"
| "strictEq (JArr xs) b = False"
| "strictEq (JObj kvs) b = False"
| "strictEq (JHostObject n) b = False"
| "strictEq a b = (a = b)"

text \<open>\<open>evaluateCondition(condition, data)\<close>; an absent condition is \<open>None\<close>.\<close>

definition evaluateCondition :: "host \<Rightarrow> string option \<Rightarrow> jsval \<Rightarrow> error + bool" where
  "evaluateCondition h cond data =
     (case cond of
        None \<Rightarrow> Inr True
      | Some c \<Rightarrow>
          if c = [] then Inr True
          else case matchCondition c of
                 None \<Rightarrow> Inr True
               | Some (pathStr, operator, expectedStr) \<Rightarrow>
                   (case getNestedValue h data (trim pathStr) JUndefined of
                      Inl e \<Rightarrow> Inl e
                    | Inr actualValue \<Rightarrow>
                        (let expected = parseExpected expectedStr in
                         if operator = ''==='' \<or> operator = ''=='' then
                           Inr (strictEq actualValue expected)
                         else if operator = ''!=='' \<or> operator = ''!='' then
                           Inr (\<not> strictEq actualValue expected)
                         else Inr True)))"

lemma firstSome_Some: "firstSome f xs = Some y \<Longrightarrow> \<exists>x\<in>set xs. f x = Some y"
  by (induction xs) (auto split: option.splits)

lemma startsWith_append: "startsWith s (p @ q) \<Longrightarrow> startsWith s p"
proof -
  assume "startsWith s (p @ q)"
  then have "take (length p + length q) s = p @ q"
    by (simp add: startsWith_def)
  then have "take (length p) (take (length p + length q) s) = take (length p) (p @ q)"
    by simp
  then show ?thesis
    by (simp add: startsWith_def min_def)
qed

lemma includesStr_append: "includesStr c (p @ q) \<Longrightarrow> p \<noteq> [] \<Longrightarrow> includesStr c p"
  by (induction c) (auto dest: startsWith_append)

lemma includesStr_drop: "startsWith (drop n s) p \<Longrightarrow> p \<noteq> [] \<Longrightarrow> includesStr s p"
proof (induction s arbitrary: n)
  case Nil
  then show ?case by (simp add: startsWith_def)
next
  case (Cons a s)
  then show ?case by (cases n) auto
qed

lemma matchOperator_Some:
  assumes "matchOperator u = Some r"
  shows "startsWith u ''=='' \<or> startsWith u ''!=''"
proof -
  from assms obtain operator where
    op: "operator \<in> set [''==='', ''!=='', ''=='', ''!='']" and sw: "startsWith u operator"
    unfolding matchOperator_def by (auto dest!: firstSome_Some split: if_splits)
  from op consider "operator = ''=='' @ ''=''" | "operator = ''!='' @ ''=''"
    | "operator = ''==''" | "operator = ''!=''" by auto
  then show ?thesis
  proof cases
    case 1
    then show ?thesis using sw startsWith_append [of u "''==''" "''=''"] by simp
  next
    case 2
    then show ?thesis using sw startsWith_append [of u "''!=''" "''=''"] by simp
  next
    case 3
    then show ?thesis using sw by simp
  next
    case 4
    then show ?thesis using sw by simp
  qed
qed

lemma matchCondition_Some:
  assumes "matchCondition c = Some r"
  shows "includesStr c ''=='' \<or> includesStr c ''!=''"
proof -
  from assms obtain i where
    "(if list_ex isLineTerminator (take i c) then None
      else map_option (\<lambda>(operator, e). (take i c, operator, e))
             (matchSpaceOperator (drop i c))) = Some r"
    unfolding matchCondition_def using firstSome_Some by fastforce
  then obtain r1 where "matchSpaceOperator (drop i c) = Some r1"
    by (cases "matchSpaceOperator (drop i c)") (auto split: if_splits)
  then obtain j where "matchOperator (drop j (drop i c)) = Some r1"
    unfolding matchSpaceOperator_def using firstSome_Some by fastforce
  then have "startsWith (drop (j + i) c) ''=='' \<or> startsWith (drop (j + i) c) ''!=''"
    using matchOperator_Some [of "drop j (drop i c)" r1] by simp
  then show ?thesis
    using includesStr_drop [of "j + i" c] by auto
qed

text \<open>
  C6. The Condition Evaluator returns true when the condition is absent (or empty), and
  when the expression is malformed, that is when the pattern
  \<open>path operator literal\<close> does not match it; an expression that contains none of the
  operators \<open>===\<close>, \<open>==\<close>, \<open>!==\<close>, \<open>!=\<close> is malformed.
\<close>

theorem evaluateCondition_absent_or_malformed:
  "evaluateCondition h None data = Inr True
   \<and> evaluateCondition h (Some []) data = Inr True
   \<and> (matchCondition c = None \<longrightarrow> evaluateCondition h (Some c) data = Inr True)
   \<and> (\<not> includesStr c ''=='' \<and> \<not> includesStr c ''!='' \<longrightarrow> matchCondition c = None)"
proof (intro conjI impI)
  show "evaluateCondition h None data = Inr True"
    and "evaluateCondition h (Some []) data = Inr True"
    by (simp_all add: evaluateCondition_def)
next
  assume "matchCondition c = None"
  then show "evaluateCondition h (Some c) data = Inr True"
    by (simp add: evaluateCondition_def)
next
  assume "\<not> includesStr c ''=='' \<and> \<not> includesStr c ''!=''"
  then show "matchCondition c = None"
    using matchCondition_Some [of c] by (cases "matchCondition c") auto
qed

theorem evaluateCondition_absent_or_malformed_witness:
  "\<not> includesStr ''income.total >= 5'' ''=='' \<and> \<not> includesStr ''income.total >= 5'' ''!=''
   \<and> matchCondition ''income.total >= 5'' = None
   \<and> evaluateCondition exampleHost (Some ''income.total >= 5'') (JObj []) = Inr True"
proof -
  note t = evaluateCondition_absent_or_malformed [of exampleHost "JObj []" "''income.total >= 5''"]
  have h1: "\<not> includesStr ''income.total >= 5'' ''==''"
    by (simp add: startsWith_def)
  have h2: "\<not> includesStr ''income.total >= 5'' ''!=''"
    by (simp add: startsWith_def)
  have m: "matchCondition ''income.total >= 5'' = None"
    by (rule mp [OF t [THEN conjunct2, THEN conjunct2, THEN conjunct2]])
       (rule conjI [OF h1 h2])
  have e: "evaluateCondition exampleHost (Some ''income.total >= 5'') (JObj []) = Inr True"
    by (rule mp [OF t [THEN conjunct2, THEN conjunct2, THEN conjunct1]]) (rule m)
  show ?thesis
    by (rule conjI [OF h1 conjI [OF h2 conjI [OF m e]]])
qed

section \<open>Target document\<close>

text \<open>
  The target document as the renderer uses it through the document library: the number of
  pages, the interactive fields by name (a check box with its state, a text field with its
  text and its optional maximum length, or a field of another kind), and the placement
  operations issued so far. \<open>console\<close> holds the warnings written with \<open>console.warn\<close>.
  Drawing on an existing page is taken to succeed.
\<close>

datatype pdfField = PDFCheckBox bool | PDFTextField "string option" "nat option" | PDFOtherField

datatype pdfError = NoSuchField | UnexpectedFieldType | ExceededMaxLength

datatype placement =
    Check string
  | SetText string string
  | DrawText nat string rat rat rat

datatype warning = PageNotFound int string | CouldNotFill string pdfError

record renderState =
  pageCount :: nat
  formFields :: "string \<rightharpoonup> pdfField"
  placements :: "placement list"
  console :: "warning list"

text \<open>\<open>form.getCheckBox(name)\<close> raises when no field has the name or the field is not a
  check box; \<open>checkbox.check()\<close> checks it.\<close>

definition getCheckBox :: "renderState \<Rightarrow> string \<Rightarrow> pdfError + string" where
  "getCheckBox st name =
     (case formFields st name of
        None \<Rightarrow> Inl NoSuchField
      | Some (PDFCheckBox b) \<Rightarrow> Inr name
      | Some other \<Rightarrow> Inl UnexpectedFieldType)"

definition check :: "renderState \<Rightarrow> string \<Rightarrow> renderState" where
  "check st name =
     st\<lparr>formFields := (formFields st)(name \<mapsto> PDFCheckBox True),
        placements := placements st @ [Check name]\<rparr>"

text \<open>\<open>form.getTextField(name)\<close> likewise; \<open>textField.setText(text)\<close> raises when the
  text is longer than the field's maximum length.\<close>

definition getTextField :: "renderState \<Rightarrow> string \<Rightarrow> pdfError + string" where
  "getTextField st name =
     (case formFields st name of
        None \<Rightarrow> Inl NoSuchField
      | Some (PDFTextField t m) \<Rightarrow> Inr name
      | Some other \<Rightarrow> Inl UnexpectedFieldType)"

definition setText :: "renderState \<Rightarrow> string \<Rightarrow> string \<Rightarrow> pdfError + renderState" where
  "setText st name txt =
     (case formFields st name of
        Some (PDFTextField t m) \<Rightarrow>
          if (case m of None \<Rightarrow> False | Some k \<Rightarrow> k < length txt) then Inl ExceededMaxLength
          else Inr (st\<lparr>formFields := (formFields st)(name \<mapsto> PDFTextField (Some txt) m),
                       placements := placements st @ [SetText name txt]\<rparr>)
      | other \<Rightarrow> Inl UnexpectedFieldType)"

text \<open>\<open>page.drawText(text, {x, y, size, font, color})\<close> on the page with the given index.\<close>

definition drawText :: "renderState \<Rightarrow> nat \<Rightarrow> string \<Rightarrow> rat \<Rightarrow> rat \<Rightarrow> rat \<Rightarrow> renderState" where
  "drawText st pageIndex txt x y sz =
     st\<lparr>placements := placements st @ [DrawText pageIndex txt x y sz]\<rparr>"

section \<open>Render Orchestrator\<close>

text \<open>A \<open>for (const x of xs)\<close> loop whose body may raise: the first error ends it.\<close>

fun forEachE :: "('s \<Rightarrow> 'a \<Rightarrow> error + 's) \<Rightarrow> 's \<Rightarrow> 'a list \<Rightarrow> error + 's" where
  "forEachE body s [] = Inr s"
| "forEachE body s (x # xs) =
     (case body s x of Inl e \<Rightarrow> Inl e | Inr s' \<Rightarrow> forEachE body s' xs)"

text \<open>The value of a field, resolved, transformed and formatted:
  \<open>formatValue(applyTransform(getNestedValue(data, path, fallback), transform), field)\<close>.
  A fallback that is absent is \<open>undefined\<close>, which leaves the resolver's default.\<close>

definition formattedValueOf :: "host \<Rightarrow> jsval \<Rightarrow> field \<Rightarrow> error + jsval" where
  "formattedValueOf h data f =
     (case getNestedValue h data (path (binding f))
             (case fallback (binding f) of None \<Rightarrow> JUndefined | Some d \<Rightarrow> d) of
        Inl e \<Rightarrow> Inl e
      | Inr v \<Rightarrow> formatValue h (applyTransform h v (transform (binding f))) f)"

text \<open>\<open>format.fontSize || 10\<close> and \<open>format.checkMark || "X"\<close>.\<close>

definition fontSizeOf :: "format \<Rightarrow> rat" where
  "fontSizeOf fmt = (case fontSize fmt of None \<Rightarrow> 10 | Some z \<Rightarrow> if z = 0 then 10 else z)"

definition checkMarkOf :: "format \<Rightarrow> string" where
  "checkMarkOf fmt = (case checkMark fmt of None \<Rightarrow> ''X'' | Some m \<Rightarrow> if m = [] then ''X'' else m)"

text \<open>The horizontal origin of a text of the given width in the rectangle \<open>pos\<close>.\<close>

definition textXOf :: "position \<Rightarrow> format \<Rightarrow> rat \<Rightarrow> rat" where
  "textXOf pos fmt textWidth =
     (if align fmt = Some ''right'' then posX pos + posWidth pos - textWidth - 2
      else if align fmt = Some ''center'' then posX pos + (posWidth pos - textWidth) / 2
      else posX pos + 2)"

text \<open>The body of the loop of \<open>fillWithCoordinates\<close>, on the document and \<open>filledCount\<close>.\<close>

definition coordinateStep ::
  "host \<Rightarrow> jsval \<Rightarrow> renderState \<times> nat \<Rightarrow> field \<Rightarrow> error + renderState \<times> nat" where
  "coordinateStep h data s f =
     (case s of (st, filledCount) \<Rightarrow>
      case evaluateCondition h (condition (binding f)) data of
        Inl e \<Rightarrow> Inl e
      | Inr active \<Rightarrow>
          if \<not> active then Inr (st, filledCount)
          else case formattedValueOf h data f of
            Inl e \<Rightarrow> Inl e
          | Inr formattedValue \<Rightarrow>
              if formattedValue = JStr [] \<and> fieldType f \<noteq> ''checkbox'' then Inr (st, filledCount)
              else if \<not> (1 \<le> page f \<and> page f \<le> int (pageCount st)) then
                Inr (st\<lparr>console := console st @ [PageNotFound (page f) (fieldId f)]\<rparr>,
                     filledCount)
              else
                (let pos = position f;
                     fmt = formatOf f;
                     sz = fontSizeOf fmt;
                     pageIndex = nat (page f - 1)
                 in if fieldType f = ''checkbox'' then
                      (if formattedValue = JBool True then
                         (let centerX = posX pos + posWidth pos / 2;
                              centerY = posY pos + posHeight pos / 2
                          in Inr (drawText st pageIndex (checkMarkOf fmt)
                                    (centerX - sz / 4) (centerY - sz / 3) sz,
                                  filledCount + 1))
                       else Inr (st, filledCount))
                    else
                      (let txt = toStr h formattedValue;
                           textWidth = widthOfTextAtSize h txt sz
                       in Inr (drawText st pageIndex txt (textXOf pos fmt textWidth)
                                 (posY pos + (posHeight pos - sz) / 2) sz,
                               filledCount + 1))))"

definition fillWithCoordinates ::
  "host \<Rightarrow> renderState \<Rightarrow> annotation \<Rightarrow> jsval \<Rightarrow> error + renderState \<times> nat" where
  "fillWithCoordinates h st ann data = forEachE (coordinateStep h data) (st, 0) (annFields ann)"

text \<open>\<open>!field.nativeFieldId\<close> is false: the identifier is present and not empty.\<close>

definition hasNativeFieldId :: "field \<Rightarrow> bool" where
  "hasNativeFieldId f = (case nativeFieldId f of None \<Rightarrow> False | Some n \<Rightarrow> n \<noteq> [])"

text \<open>\<open>field.nativeFieldId\<close>, read where the field has one.\<close>

definition nativeId :: "field \<Rightarrow> string" where
  "nativeId f = (case nativeFieldId f of None \<Rightarrow> [] | Some n \<Rightarrow> n)"

text \<open>The \<open>try\<close> block of \<open>fillWithNativeFields\<close>: \<open>Inl\<close> is what the document library
  raises, which the \<open>catch\<close> receives.\<close>

definition tryNative ::
  "host \<Rightarrow> renderState \<times> nat \<Rightarrow> field \<Rightarrow> jsval \<Rightarrow> pdfError + renderState \<times> nat" where
  "tryNative h s f formattedValue =
     (case s of (st, filledCount) \<Rightarrow>
      if fieldType f = ''checkbox'' then
        (if formattedValue = JBool True then
           (case getCheckBox st (nativeId f) of
              Inl err \<Rightarrow> Inl err
            | Inr checkbox \<Rightarrow> Inr (check st checkbox, filledCount + 1))
         else Inr (st, filledCount))
      else
        (case getTextField st (nativeId f) of
           Inl err \<Rightarrow> Inl err
         | Inr textField \<Rightarrow>
             (let valueToSet =
                    (if fieldType f = ''ssn''
                     then filter (\<lambda>c. c \<noteq> CHR ''-'') (toStr h formattedValue)
                     else toStr h formattedValue)
              in case setText st textField valueToSet of
                   Inl err \<Rightarrow> Inl err
                 | Inr st' \<Rightarrow> Inr (st', filledCount + 1))))"

text \<open>The body of the loop of \<open>fillWithNativeFields\<close>, on the document, \<open>filledCount\<close> and
  \<open>fallbackCount\<close>.\<close>

definition nativeStep ::
  "host \<Rightarrow> jsval \<Rightarrow> renderState \<times> nat \<times> nat \<Rightarrow> field \<Rightarrow> error + renderState \<times> nat \<times> nat" where
  "nativeStep h data s f =
     (case s of (st, filledCount, fallbackCount) \<Rightarrow>
      case evaluateCondition h (condition (binding f)) data of
        Inl e \<Rightarrow> Inl e
      | Inr active \<Rightarrow>
          if \<not> active then Inr (st, filledCount, fallbackCount)
          else if \<not> hasNativeFieldId f then Inr (st, filledCount, fallbackCount + 1)
          else case formattedValueOf h data f of
            Inl e \<Rightarrow> Inl e
          | Inr formattedValue \<Rightarrow>
              if formattedValue = JStr [] \<and> fieldType f \<noteq> ''checkbox''
              then Inr (st, filledCount, fallbackCount)
              else case tryNative h (st, filledCount) f formattedValue of
                     Inr (st', filledCount') \<Rightarrow> Inr (st', filledCount', fallbackCount)
                   | Inl err \<Rightarrow>
                       Inr (st\<lparr>console := console st
                                   @ [CouldNotFill (nativeId f) err]\<rparr>,
                            filledCount, fallbackCount))"

definition fillWithNativeFields ::
  "host \<Rightarrow> renderState \<Rightarrow> annotation \<Rightarrow> jsval \<Rightarrow> error + renderState \<times> nat \<times> nat" where
  "fillWithNativeFields h st ann data = forEachE (nativeStep h data) (st, 0, 0) (annFields ann)"

record options =
  useNativeFields :: "bool option"

text \<open>
  \<open>render\<close>, from the loaded document, annotation and data to the document as it is saved
  and the result object, the association list of its properties: \<open>filledCount\<close> and
  \<open>fallbackCount\<close> in native mode, \<open>filledCount\<close> alone otherwise.
\<close>

definition render ::
  "host \<Rightarrow> renderState \<Rightarrow> annotation \<Rightarrow> jsval \<Rightarrow> options
   \<Rightarrow> error + renderState \<times> (string \<times> nat) list" where
  "render h pdfDoc ann data opts =
     (let hasNativeFields = list_ex hasNativeFieldId (annFields ann);
          useNative = (useNativeFields opts \<noteq> Some False \<and> hasNativeFields)
      in if useNative then
           (case fillWithNativeFields h pdfDoc ann data of
              Inl e \<Rightarrow> Inl e
            | Inr (st, filledCount, fallbackCount) \<Rightarrow>
                if 0 < fallbackCount then
                  (case fillWithCoordinates h st
                          (ann\<lparr>annFields := filter (\<lambda>f. \<not> hasNativeFieldId f) (annFields ann)\<rparr>)
                          data of
                     Inl e \<Rightarrow> Inl e
                   | Inr (st', coordCount) \<Rightarrow>
                       Inr (st', [(''filledCount'', filledCount + coordCount),
                                  (''fallbackCount'', fallbackCount)]))
                else Inr (st, [(''filledCount'', filledCount),
                               (''fallbackCount'', fallbackCount)]))
         else
           (case fillWithCoordinates h pdfDoc ann data of
              Inl e \<Rightarrow> Inl e
            | Inr (st, filledCount) \<Rightarrow> Inr (st, [(''filledCount'', filledCount)])))"

section \<open>The two placement passes\<close>

text \<open>A placement drawn at coordinates, as opposed to one set on a native field.\<close>

fun isDraw :: "placement \<Rightarrow> bool" where
  "isDraw (DrawText p t x y z) = True"
| "isDraw other = False"

lemma forEachE_append:
  "forEachE body s (xs @ ys) =
     (case forEachE body s xs of Inl e \<Rightarrow> Inl e | Inr s' \<Rightarrow> forEachE body s' ys)"
  by (induction xs arbitrary: s) (auto split: sum.splits)

lemma coordinateStep_effect:
  assumes "coordinateStep h data (st, n) f = Inr (st', n')"
  shows "\<exists>ops. placements st' = placements st @ ops \<and> length ops \<le> 1 \<and> list_all isDraw ops
     \<and> formFields st' = formFields st \<and> pageCount st' = pageCount st"
  using assms
  by (auto simp: coordinateStep_def drawText_def Let_def split: sum.splits if_splits)

lemma tryNative_effect:
  assumes "tryNative h (st, n) f fv = Inr (st', n')"
  shows "\<exists>ops. placements st' = placements st @ ops \<and> length ops \<le> 1
     \<and> list_all (\<lambda>p. \<not> isDraw p) ops \<and> pageCount st' = pageCount st \<and> console st' = console st"
  using assms
  by (auto simp: tryNative_def getCheckBox_def check_def getTextField_def setText_def Let_def
      split: sum.splits if_splits option.splits pdfField.splits)

lemma nativeStep_effect:
  assumes "nativeStep h data (st, n, k) f = Inr (st', n', k')"
  shows "\<exists>ops. placements st' = placements st @ ops \<and> length ops \<le> 1
     \<and> list_all (\<lambda>p. \<not> isDraw p) ops \<and> pageCount st' = pageCount st
     \<and> (\<not> hasNativeFieldId f \<longrightarrow> st' = st)"
proof -
  consider (skip) "st' = st"
    | (warn) err where "st' = st\<lparr>console := console st @ [CouldNotFill (nativeId f) err]\<rparr>"
        and "hasNativeFieldId f"
    | (placed) fv m where "tryNative h (st, n) f fv = Inr (st', m)" and "hasNativeFieldId f"
    using assms
    by (auto simp: nativeStep_def split: sum.splits if_splits prod.splits)
  then show ?thesis
  proof cases
    case skip
    then show ?thesis by simp
  next
    case warn
    then show ?thesis by simp
  next
    case placed
    then show ?thesis using tryNative_effect [of h st n f fv st' m] by auto
  qed
qed

lemma coordinateLoop_effect:
  "forEachE (coordinateStep h data) (st, n) fs = Inr (st', n') \<Longrightarrow>
   \<exists>ops. placements st' = placements st @ ops \<and> length ops \<le> length fs
     \<and> list_all isDraw ops \<and> formFields st' = formFields st"
proof (induction fs arbitrary: st n)
  case Nil
  then show ?case by simp
next
  case (Cons f fs)
  from Cons.prems obtain st1 n1 where
    step: "coordinateStep h data (st, n) f = Inr (st1, n1)"
    and rest: "forEachE (coordinateStep h data) (st1, n1) fs = Inr (st', n')"
    by (auto split: sum.splits)
  from coordinateStep_effect [OF step] obtain ops1 where
    o1: "placements st1 = placements st @ ops1" "length ops1 \<le> 1" "list_all isDraw ops1"
      "formFields st1 = formFields st"
    by blast
  from Cons.IH [OF rest] obtain ops2 where
    o2: "placements st' = placements st1 @ ops2" "length ops2 \<le> length fs"
      "list_all isDraw ops2" "formFields st' = formFields st1"
    by blast
  have "placements st' = placements st @ (ops1 @ ops2)"
    "length (ops1 @ ops2) \<le> length (f # fs)" "list_all isDraw (ops1 @ ops2)"
    "formFields st' = formFields st"
    using o1 o2 by simp_all
  then show ?case by blast
qed

lemma nativeLoop_effect:
  "forEachE (nativeStep h data) (st, n, k) fs = Inr (st', n', k') \<Longrightarrow>
   \<exists>ops. placements st' = placements st @ ops
     \<and> length ops \<le> length (filter hasNativeFieldId fs)
     \<and> list_all (\<lambda>p. \<not> isDraw p) ops"
proof (induction fs arbitrary: st n k)
  case Nil
  then show ?case by simp
next
  case (Cons f fs)
  from Cons.prems obtain st1 n1 k1 where
    step: "nativeStep h data (st, n, k) f = Inr (st1, n1, k1)"
    and rest: "forEachE (nativeStep h data) (st1, n1, k1) fs = Inr (st', n', k')"
    by (auto split: sum.splits)
  from nativeStep_effect [OF step] obtain ops1 where
    o1: "placements st1 = placements st @ ops1" "length ops1 \<le> 1"
      "list_all (\<lambda>p. \<not> isDraw p) ops1" "\<not> hasNativeFieldId f \<longrightarrow> st1 = st"
    by blast
  from Cons.IH [OF rest] obtain ops2 where
    o2: "placements st' = placements st1 @ ops2"
      "length ops2 \<le> length (filter hasNativeFieldId fs)"
      "list_all (\<lambda>p. \<not> isDraw p) ops2"
    by blast
  have e: "\<not> hasNativeFieldId f \<Longrightarrow> ops1 = []"
    using o1 by auto
  have "placements st' = placements st @ (ops1 @ ops2)"
    "list_all (\<lambda>p. \<not> isDraw p) (ops1 @ ops2)"
    using o1 o2 by simp_all
  moreover have "length (ops1 @ ops2) \<le> length (filter hasNativeFieldId (f # fs))"
    using o1(2) o2(2) e by (cases "hasNativeFieldId f") auto
  ultimately show ?case by blast
qed

text \<open>The fallback count is the number of active fields without a native identifier.\<close>

lemma nativeLoop_fallbackCount:
  "forEachE (nativeStep h data) (st, n, k) fs = Inr (st', n', k') \<Longrightarrow>
   k' = k + length (filter (\<lambda>f. \<not> hasNativeFieldId f
                              \<and> evaluateCondition h (condition (binding f)) data = Inr True) fs)
   \<and> (\<forall>f\<in>set fs. \<exists>b. evaluateCondition h (condition (binding f)) data = Inr b)"
proof (induction fs arbitrary: st n k)
  case Nil
  then show ?case by simp
next
  case (Cons f fs)
  from Cons.prems obtain st1 n1 k1 where
    step: "nativeStep h data (st, n, k) f = Inr (st1, n1, k1)"
    and rest: "forEachE (nativeStep h data) (st1, n1, k1) fs = Inr (st', n', k')"
    by (auto split: sum.splits)
  from step obtain b where b: "evaluateCondition h (condition (binding f)) data = Inr b"
    by (auto simp: nativeStep_def split: sum.splits)
  have k1: "k1 = k + (if \<not> hasNativeFieldId f \<and> b then 1 else 0)"
    using step b
    by (auto simp: nativeStep_def split: sum.splits if_splits prod.splits)
  from Cons.IH [OF rest] k1 b show ?case by auto
qed

lemma coordinateLoop_inactive:
  "\<forall>f\<in>set fs. evaluateCondition h (condition (binding f)) data = Inr False \<Longrightarrow>
   forEachE (coordinateStep h data) s fs = Inr s"
  by (induction fs) (auto simp: coordinateStep_def split: prod.splits)

lemma render_native_passes:
  assumes opt: "useNativeFields opts \<noteq> Some False"
    and has: "list_ex hasNativeFieldId (annFields ann)"
    and run: "render h pdfDoc ann data opts = Inr (st', res)"
  shows "\<exists>st1 n k c.
      fillWithNativeFields h pdfDoc ann data = Inr (st1, n, k)
    \<and> fillWithCoordinates h st1
          (ann\<lparr>annFields := filter (\<lambda>f. \<not> hasNativeFieldId f) (annFields ann)\<rparr>) data
        = Inr (st', c)
    \<and> res = [(''filledCount'', n + c), (''fallbackCount'', k)]"
proof -
  let ?rest = "ann\<lparr>annFields := filter (\<lambda>f. \<not> hasNativeFieldId f) (annFields ann)\<rparr>"
  from run opt has obtain st1 n k where
    nat: "fillWithNativeFields h pdfDoc ann data = Inr (st1, n, k)"
    by (auto simp: render_def split: sum.splits)
  show ?thesis
  proof (cases "0 < k")
    case True
    with run opt has nat obtain c where
      "fillWithCoordinates h st1 ?rest data = Inr (st', c)"
      "res = [(''filledCount'', n + c), (''fallbackCount'', k)]"
      by (auto simp: render_def split: sum.splits)
    with nat show ?thesis by blast
  next
    case False
    then have k0: "k = 0" by simp
    from run opt has nat k0 have same: "st' = st1"
      and res: "res = [(''filledCount'', n), (''fallbackCount'', k)]"
      by (auto simp: render_def)
    from nat have loop: "forEachE (nativeStep h data) (pdfDoc, 0, 0) (annFields ann) = Inr (st1, n, k)"
      by (simp add: fillWithNativeFields_def)
    from nativeLoop_fallbackCount [OF loop] k0
    have none: "filter (\<lambda>f. \<not> hasNativeFieldId f
          \<and> evaluateCondition h (condition (binding f)) data = Inr True) (annFields ann) = []"
      and all: "\<forall>f\<in>set (annFields ann). \<exists>b. evaluateCondition h (condition (binding f)) data = Inr b"
      by simp_all
    have "\<forall>f\<in>set (filter (\<lambda>f. \<not> hasNativeFieldId f) (annFields ann)).
        evaluateCondition h (condition (binding f)) data = Inr False"
    proof
      fix f assume f: "f \<in> set (filter (\<lambda>f. \<not> hasNativeFieldId f) (annFields ann))"
      then obtain b where b: "evaluateCondition h (condition (binding f)) data = Inr b"
        using all by auto
      have "\<not> (\<not> hasNativeFieldId f \<and> evaluateCondition h (condition (binding f)) data = Inr True)"
        using none f by (auto simp: filter_empty_conv)
      with f b show "evaluateCondition h (condition (binding f)) data = Inr False"
        by auto
    qed
    then have "fillWithCoordinates h st1 ?rest data = Inr (st1, 0)"
      using coordinateLoop_inactive [of _ h data "(st1, 0)"]
      by (simp add: fillWithCoordinates_def)
    with nat same res show ?thesis by auto
  qed
qed

text \<open>
  C7. In native mode \<open>render\<close> is the native pass over all the fields followed by the
  coordinate pass over exactly the fields that lack \<open>nativeFieldId\<close> (when no field fell
  back the second pass is not run, and running it would place nothing). The native pass
  issues operations on native fields only, at most one for each field that declares
  \<open>nativeFieldId\<close>, and leaves the document as it is at a field that lacks one; the
  coordinate pass draws only, at most once for each field of its subset. So no field is
  placed twice.
\<close>

theorem render_never_places_twice:
  "(useNativeFields opts \<noteq> Some False \<and> list_ex hasNativeFieldId (annFields ann)
     \<and> render h pdfDoc ann data opts = Inr (st', res)
   \<longrightarrow> (\<exists>st1 n k c nativeOps drawOps.
          fillWithNativeFields h pdfDoc ann data = Inr (st1, n, k)
        \<and> fillWithCoordinates h st1
              (ann\<lparr>annFields := filter (\<lambda>f. \<not> hasNativeFieldId f) (annFields ann)\<rparr>) data
            = Inr (st', c)
        \<and> placements st1 = placements pdfDoc @ nativeOps
        \<and> placements st' = placements st1 @ drawOps
        \<and> list_all (\<lambda>p. \<not> isDraw p) nativeOps
        \<and> length nativeOps \<le> length (filter hasNativeFieldId (annFields ann))
        \<and> list_all isDraw drawOps
        \<and> length drawOps \<le> length (filter (\<lambda>f. \<not> hasNativeFieldId f) (annFields ann))))
   \<and> (\<forall>s f s'. \<not> hasNativeFieldId f \<and> nativeStep h data s f = Inr s' \<longrightarrow> fst s' = fst s)"
proof (intro impI conjI allI)
  assume a: "useNativeFields opts \<noteq> Some False \<and> list_ex hasNativeFieldId (annFields ann)
     \<and> render h pdfDoc ann data opts = Inr (st', res)"
  let ?rest = "ann\<lparr>annFields := filter (\<lambda>f. \<not> hasNativeFieldId f) (annFields ann)\<rparr>"
  from a render_native_passes [of opts ann h pdfDoc data st' res] obtain st1 n k c where
    nat: "fillWithNativeFields h pdfDoc ann data = Inr (st1, n, k)"
    and crd: "fillWithCoordinates h st1 ?rest data = Inr (st', c)"
    by blast
  from nat nativeLoop_effect [of h data pdfDoc 0 0 "annFields ann" st1 n k]
  obtain nativeOps where
    n1: "placements st1 = placements pdfDoc @ nativeOps"
    and n2: "length nativeOps \<le> length (filter hasNativeFieldId (annFields ann))"
    and n3: "list_all (\<lambda>p. \<not> isDraw p) nativeOps"
    by (auto simp: fillWithNativeFields_def)
  from crd coordinateLoop_effect [of h data st1 0 "annFields ?rest" st' c]
  obtain drawOps where
    d1: "placements st' = placements st1 @ drawOps"
    and d2: "length drawOps \<le> length (filter (\<lambda>f. \<not> hasNativeFieldId f) (annFields ann))"
    and d3: "list_all isDraw drawOps"
    by (auto simp: fillWithCoordinates_def)
  from nat crd n1 n2 n3 d1 d2 d3
  show "\<exists>st1 n k c nativeOps drawOps.
          fillWithNativeFields h pdfDoc ann data = Inr (st1, n, k)
        \<and> fillWithCoordinates h st1 ?rest data = Inr (st', c)
        \<and> placements st1 = placements pdfDoc @ nativeOps
        \<and> placements st' = placements st1 @ drawOps
        \<and> list_all (\<lambda>p. \<not> isDraw p) nativeOps
        \<and> length nativeOps \<le> length (filter hasNativeFieldId (annFields ann))
        \<and> list_all isDraw drawOps
        \<and> length drawOps \<le> length (filter (\<lambda>f. \<not> hasNativeFieldId f) (annFields ann))"
    by blast
next
  fix s :: "renderState \<times> nat \<times> nat" and f s'
  assume b: "\<not> hasNativeFieldId f \<and> nativeStep h data s f = Inr s'"
  obtain st n k where s: "s = (st, n, k)" by (cases s)
  obtain st1 n1 k1 where s': "s' = (st1, n1, k1)" by (cases s')
  from b nativeStep_effect [of h data st n k f st1 n1 k1] s s'
  show "fst s' = fst s" by auto
qed

lemma nativeStep_checkbox:
  assumes "fieldType f = ''checkbox''"
    and "nativeStep h data (st, n, k) f = Inr (st', n', k')"
  shows "(placements st' = placements st \<and> formFields st' = formFields st)
     \<or> (formattedValueOf h data f = Inr (JBool True)
        \<and> placements st' = placements st @ [Check (nativeId f)]
        \<and> formFields st' = (formFields st)(nativeId f \<mapsto> PDFCheckBox True))"
  using assms
  by (auto simp: nativeStep_def tryNative_def getCheckBox_def check_def
      split: sum.splits if_splits option.splits pdfField.splits)

lemma tryNative_keeps_checked:
  assumes "tryNative h (st, n) f fv = Inr (st', n')"
    and "formFields st name = Some (PDFCheckBox True)"
  shows "formFields st' name = Some (PDFCheckBox True)"
  using assms
  by (auto simp: tryNative_def getCheckBox_def check_def getTextField_def setText_def Let_def
      split: sum.splits if_splits option.splits pdfField.splits)

lemma nativeStep_keeps_checked:
  assumes "nativeStep h data (st, n, k) f = Inr (st', n', k')"
    and "formFields st name = Some (PDFCheckBox True)"
  shows "formFields st' name = Some (PDFCheckBox True)"
proof -
  consider (skip) "formFields st' = formFields st"
    | (placed) fv m where "tryNative h (st, n) f fv = Inr (st', m)"
    using assms(1)
    by (auto simp: nativeStep_def split: sum.splits if_splits prod.splits)
  then show ?thesis
  proof cases
    case skip
    then show ?thesis using assms(2) by simp
  next
    case placed
    then show ?thesis using assms(2) by (rule tryNative_keeps_checked)
  qed
qed

lemma nativeLoop_keeps_checked:
  "forEachE (nativeStep h data) (st, n, k) fs = Inr (st', n', k') \<Longrightarrow>
   formFields st name = Some (PDFCheckBox True) \<Longrightarrow>
   formFields st' name = Some (PDFCheckBox True)"
proof (induction fs arbitrary: st n k)
  case Nil
  then show ?case by simp
next
  case (Cons f fs)
  from Cons.prems(1) obtain st1 n1 k1 where
    step: "nativeStep h data (st, n, k) f = Inr (st1, n1, k1)"
    and rest: "forEachE (nativeStep h data) (st1, n1, k1) fs = Inr (st', n', k')"
    by (auto split: sum.splits)
  from nativeStep_keeps_checked [OF step Cons.prems(2)]
  show ?case by (rule Cons.IH [OF rest])
qed

lemma render_keeps_checked:
  assumes run: "render h pdfDoc ann data opts = Inr (st', res)"
    and chk: "formFields pdfDoc name = Some (PDFCheckBox True)"
  shows "formFields st' name = Some (PDFCheckBox True)"
proof (cases "useNativeFields opts \<noteq> Some False \<and> list_ex hasNativeFieldId (annFields ann)")
  case True
  with run render_native_passes [of opts ann h pdfDoc data st' res] obtain st1 n k c where
    nat: "fillWithNativeFields h pdfDoc ann data = Inr (st1, n, k)"
    and crd: "fillWithCoordinates h st1
          (ann\<lparr>annFields := filter (\<lambda>f. \<not> hasNativeFieldId f) (annFields ann)\<rparr>) data
        = Inr (st', c)"
    by blast
  from nat chk have "formFields st1 name = Some (PDFCheckBox True)"
    using nativeLoop_keeps_checked [of h data pdfDoc 0 0 "annFields ann" st1 n k name]
    by (simp add: fillWithNativeFields_def)
  moreover from crd have "formFields st' = formFields st1"
    using coordinateLoop_effect [of h data st1 0 _ st' c]
    by (auto simp: fillWithCoordinates_def)
  ultimately show ?thesis by simp
next
  case False
  with run obtain c where "fillWithCoordinates h pdfDoc ann data = Inr (st', c)"
    by (auto simp: render_def Let_def split: sum.splits)
  then have "formFields st' = formFields pdfDoc"
    using coordinateLoop_effect [of h data pdfDoc 0 "annFields ann" st' c]
    by (auto simp: fillWithCoordinates_def)
  with chk show ?thesis by simp
qed

text \<open>
  C8. Native placement of a field of type checkbox either places nothing (the document's
  placements and fields are as before) or the formatted value is exactly \<open>true\<close> and the one
  operation issued is the check of the field's native check box; and no check box that is
  checked before a render is unchecked after it.
\<close>

theorem native_checkbox_never_unchecks:
  "(fieldType f = ''checkbox'' \<and> nativeStep h data (st, n, k) f = Inr (st', n', k')
    \<longrightarrow> (placements st' = placements st \<and> formFields st' = formFields st)
        \<or> (formattedValueOf h data f = Inr (JBool True)
           \<and> placements st' = placements st @ [Check (nativeId f)]
           \<and> formFields st' = (formFields st)(nativeId f \<mapsto> PDFCheckBox True)))
   \<and> (render h pdfDoc ann data opts = Inr (st'', res)
        \<and> formFields pdfDoc name = Some (PDFCheckBox True)
      \<longrightarrow> formFields st'' name = Some (PDFCheckBox True))"
  using nativeStep_checkbox [of f h data st n k st' n' k']
    render_keeps_checked [of h pdfDoc ann data opts st'' res name]
  by blast

section \<open>Examples\<close>

text \<open>A two-page document with a check box \<open>cb\<close> and a text field \<open>tx\<close>, and a data
  document.\<close>

definition exampleDoc :: renderState where
  "exampleDoc =
     \<lparr>pageCount = 2,
      formFields = [''cb'' \<mapsto> PDFCheckBox False, ''tx'' \<mapsto> PDFTextField None None],
      placements = [], console = []\<rparr>"

definition exampleData :: jsval where
  "exampleData = JObj [(''name'', JStr ''Ann''), (''yes'', JBool True), (''no'', JBool False)]"

lemmas run_eval =
  render_def fillWithNativeFields_def fillWithCoordinates_def nativeStep_def coordinateStep_def
  tryNative_def getCheckBox_def check_def getTextField_def setText_def drawText_def
  hasNativeFieldId_def nativeId_def formattedValueOf_def evaluateCondition_def applyTransform_def
  formatValue_def formatOf_def fontSizeOf_def checkMarkOf_def textXOf_def
  getNestedValue.simps orDefault_def pathKeys_def startsWith_def isDigit_def
  exampleField_def exampleDoc_def exampleData_def Let_def

section \<open>Native placement failures\<close>

text \<open>
  The field's \<open>nativeFieldId\<close> does not resolve on the target document, or the kind of the
  target field mismatches the operation that the field's type calls for.
\<close>

definition nativeMismatch :: "renderState \<Rightarrow> field \<Rightarrow> bool" where
  "nativeMismatch st f =
     (case formFields st (nativeId f) of
        None \<Rightarrow> True
      | Some (PDFCheckBox b) \<Rightarrow> fieldType f \<noteq> ''checkbox''
      | Some (PDFTextField t m) \<Rightarrow> fieldType f = ''checkbox''
      | Some PDFOtherField \<Rightarrow> True)"

lemma nativeMismatch_raises:
  assumes "nativeMismatch st f"
    and "if fieldType f = ''checkbox'' then fv = JBool True else fv \<noteq> JStr []"
  shows "\<exists>err. tryNative h (st, n) f fv = Inl err"
  using assms
  by (auto simp: nativeMismatch_def tryNative_def getCheckBox_def getTextField_def
      split: option.splits pdfField.splits if_splits)

lemma render_result_keys:
  assumes "render h pdfDoc ann data opts = Inr (st', res)"
  shows "map fst res = [''filledCount'', ''fallbackCount''] \<or> map fst res = [''filledCount'']"
  using assms
  by (auto simp: render_def Let_def split: sum.splits if_splits)

lemma render_no_errorCount:
  assumes "render h pdfDoc ann data opts = Inr (st', res)"
  shows "map_of res ''errorCount'' = None"
proof -
  have "''errorCount'' \<notin> set (map fst res)"
    using render_result_keys [OF assms] by auto
  then show ?thesis
    by (simp add: map_of_eq_None_iff)
qed

text \<open>
  C1. The claim fails on the error counter: the generic renderer has none, and the result
  of \<open>render\<close> has no \<open>errorCount\<close>. What holds: when an active field declares a
  \<open>nativeFieldId\<close> that does not resolve on the target document, or whose target mismatches
  the operation attempted for the field's value, the failure is recovered at that field:
  one warning is logged, the document, \<open>filledCount\<close> and \<open>fallbackCount\<close> are unchanged,
  and the loop goes on with the remaining fields from there.
\<close>

theorem native_failure_recovered:
  "(evaluateCondition h (condition (binding f)) data = Inr True \<and> hasNativeFieldId f
      \<and> formattedValueOf h data f = Inr fv
      \<and> (if fieldType f = ''checkbox'' then fv = JBool True else fv \<noteq> JStr [])
      \<and> nativeMismatch st f
    \<longrightarrow> (\<exists>err.
          nativeStep h data (st, n, k) f
            = Inr (st\<lparr>console := console st @ [CouldNotFill (nativeId f) err]\<rparr>, n, k)
        \<and> forEachE (nativeStep h data) (st, n, k) (f # rest)
            = forEachE (nativeStep h data)
                (st\<lparr>console := console st @ [CouldNotFill (nativeId f) err]\<rparr>, n, k)
                rest))
   \<and> (render h pdfDoc ann data opts = Inr (st', res) \<longrightarrow> map_of res ''errorCount'' = None)"
proof (intro conjI impI)
  assume a: "evaluateCondition h (condition (binding f)) data = Inr True \<and> hasNativeFieldId f
      \<and> formattedValueOf h data f = Inr fv
      \<and> (if fieldType f = ''checkbox'' then fv = JBool True else fv \<noteq> JStr [])
      \<and> nativeMismatch st f"
  then obtain err where err: "tryNative h (st, n) f fv = Inl err"
    using nativeMismatch_raises [of st f fv h n] by blast
  have ne: "\<not> (fv = JStr [] \<and> fieldType f \<noteq> ''checkbox'')"
    using a by (auto split: if_splits)
  have step: "nativeStep h data (st, n, k) f
      = Inr (st\<lparr>console := console st @ [CouldNotFill (nativeId f) err]\<rparr>, n, k)"
  proof -
    have c1: "evaluateCondition h (condition (binding f)) data = Inr True"
      and c2: "hasNativeFieldId f" and c3: "formattedValueOf h data f = Inr fv"
      using a by simp_all
    show ?thesis
      unfolding nativeStep_def by (simp only: c1 c2 c3 err ne prod.case sum.case if_True if_False
          not_True_eq_False not_False_eq_True)
  qed
  then show "\<exists>err.
          nativeStep h data (st, n, k) f
            = Inr (st\<lparr>console := console st @ [CouldNotFill (nativeId f) err]\<rparr>, n, k)
        \<and> forEachE (nativeStep h data) (st, n, k) (f # rest)
            = forEachE (nativeStep h data)
                (st\<lparr>console := console st @ [CouldNotFill (nativeId f) err]\<rparr>, n, k)
                rest"
    by (intro exI [of _ err] conjI) simp_all
next
  assume "render h pdfDoc ann data opts = Inr (st', res)"
  then show "map_of res ''errorCount'' = None"
    by (rule render_no_errorCount)
qed

theorem native_failure_recovered_witness:
  "evaluateCondition exampleHost (condition (binding (exampleField ''checkbox'' ''yes'' (Some ''missing''))))
          exampleData = Inr True
     \<and> hasNativeFieldId (exampleField ''checkbox'' ''yes'' (Some ''missing''))
     \<and> formattedValueOf exampleHost exampleData (exampleField ''checkbox'' ''yes'' (Some ''missing''))
         = Inr (JBool True)
     \<and> fieldType (exampleField ''checkbox'' ''yes'' (Some ''missing'')) = ''checkbox''
     \<and> nativeMismatch exampleDoc (exampleField ''checkbox'' ''yes'' (Some ''missing''))
     \<and> (\<exists>err.
          nativeStep exampleHost exampleData (exampleDoc, 0, 0)
              (exampleField ''checkbox'' ''yes'' (Some ''missing''))
            = Inr (exampleDoc\<lparr>console := console exampleDoc @ [CouldNotFill ''missing'' err]\<rparr>,
                   0, 0)
        \<and> forEachE (nativeStep exampleHost exampleData) (exampleDoc, 0, 0)
              [exampleField ''checkbox'' ''yes'' (Some ''missing''),
               exampleField ''text'' ''name'' (Some ''tx'')]
            = forEachE (nativeStep exampleHost exampleData)
                (exampleDoc\<lparr>console := console exampleDoc @ [CouldNotFill ''missing'' err]\<rparr>,
                 0, 0)
                [exampleField ''text'' ''name'' (Some ''tx'')])"
proof -
  let ?f = "exampleField ''checkbox'' ''yes'' (Some ''missing'')"
  let ?g = "exampleField ''text'' ''name'' (Some ''tx'')"
  have c1: "evaluateCondition exampleHost (condition (binding ?f)) exampleData = Inr True"
    by (simp add: run_eval)
  have c2: "hasNativeFieldId ?f"
    by (simp add: run_eval)
  have c3: "formattedValueOf exampleHost exampleData ?f = Inr (JBool True)"
    by (simp add: run_eval)
  have c4: "fieldType ?f = ''checkbox''"
    by (simp add: exampleField_def)
  have c5: "nativeMismatch exampleDoc ?f"
    by (simp add: nativeMismatch_def nativeId_def exampleField_def exampleDoc_def)
  have nid: "nativeId ?f = ''missing''"
    by (simp add: exampleField_def nativeId_def)
  have "\<exists>err.
          nativeStep exampleHost exampleData (exampleDoc, 0, 0) ?f
            = Inr (exampleDoc\<lparr>console := console exampleDoc
                      @ [CouldNotFill (nativeId ?f) err]\<rparr>, 0, 0)
        \<and> forEachE (nativeStep exampleHost exampleData) (exampleDoc, 0, 0) (?f # [?g])
            = forEachE (nativeStep exampleHost exampleData)
                (exampleDoc\<lparr>console := console exampleDoc
                      @ [CouldNotFill (nativeId ?f) err]\<rparr>, 0, 0)
                [?g]"
    using native_failure_recovered
      [of exampleHost ?f exampleData "JBool True" exampleDoc 0 0 "[?g]", THEN conjunct1]
      c1 c2 c3 c4 c5
    by simp
  then have c6: "\<exists>err.
          nativeStep exampleHost exampleData (exampleDoc, 0, 0) ?f
            = Inr (exampleDoc\<lparr>console := console exampleDoc @ [CouldNotFill ''missing'' err]\<rparr>,
                   0, 0)
        \<and> forEachE (nativeStep exampleHost exampleData) (exampleDoc, 0, 0) [?f, ?g]
            = forEachE (nativeStep exampleHost exampleData)
                (exampleDoc\<lparr>console := console exampleDoc @ [CouldNotFill ''missing'' err]\<rparr>,
                 0, 0)
                [?g]"
    unfolding nid .
  show "evaluateCondition exampleHost (condition (binding ?f)) exampleData = Inr True
     \<and> hasNativeFieldId ?f
     \<and> formattedValueOf exampleHost exampleData ?f = Inr (JBool True)
     \<and> fieldType ?f = ''checkbox''
     \<and> nativeMismatch exampleDoc ?f
     \<and> (\<exists>err.
          nativeStep exampleHost exampleData (exampleDoc, 0, 0) ?f
            = Inr (exampleDoc\<lparr>console := console exampleDoc @ [CouldNotFill ''missing'' err]\<rparr>,
                   0, 0)
        \<and> forEachE (nativeStep exampleHost exampleData) (exampleDoc, 0, 0) [?f, ?g]
            = forEachE (nativeStep exampleHost exampleData)
                (exampleDoc\<lparr>console := console exampleDoc @ [CouldNotFill ''missing'' err]\<rparr>,
                 0, 0)
                [?g])"
    by (rule conjI [OF c1 conjI [OF c2 conjI [OF c3 conjI [OF c4 conjI [OF c5 c6]]]]])
qed

theorem render_errorCount_counterexample:
  "render exampleHost exampleDoc
     \<lparr>annFields = [exampleField ''checkbox'' ''yes'' (Some ''missing''),
                   exampleField ''text'' ''name'' (Some ''tx'')]\<rparr>
     exampleData \<lparr>useNativeFields = None\<rparr>
   = Inr (exampleDoc
            \<lparr>formFields := (formFields exampleDoc)(''tx'' \<mapsto> PDFTextField (Some ''Ann'') None),
             placements := [SetText ''tx'' ''Ann''],
             console := [CouldNotFill ''missing'' NoSuchField]\<rparr>,
          [(''filledCount'', 1), (''fallbackCount'', 0)])
   \<and> map_of [(''filledCount'', 1 :: nat), (''fallbackCount'', 0)] ''errorCount'' = None"
  by (simp add: run_eval)

section \<open>Instances of the placement theorems\<close>

theorem render_never_places_twice_witness:
  "useNativeFields \<lparr>useNativeFields = None\<rparr> \<noteq> Some False
     \<and> list_ex hasNativeFieldId
          (annFields \<lparr>annFields = [exampleField ''text'' ''name'' (Some ''tx''),
                                   exampleField ''text'' ''name'' None]\<rparr>)
     \<and> render exampleHost exampleDoc
          \<lparr>annFields = [exampleField ''text'' ''name'' (Some ''tx''),
                        exampleField ''text'' ''name'' None]\<rparr>
          exampleData \<lparr>useNativeFields = None\<rparr>
        = Inr (exampleDoc
                 \<lparr>formFields := (formFields exampleDoc)(''tx'' \<mapsto> PDFTextField (Some ''Ann'') None),
                  placements := [SetText ''tx'' ''Ann'', DrawText 0 ''Ann'' 506 331 10]\<rparr>,
               [(''filledCount'', 2), (''fallbackCount'', 1)])
     \<and> (\<exists>nativeOps drawOps.
          [SetText ''tx'' ''Ann'', DrawText 0 ''Ann'' 506 331 10] = nativeOps @ drawOps
          \<and> list_all (\<lambda>p. \<not> isDraw p) nativeOps \<and> length nativeOps \<le> 1
          \<and> list_all isDraw drawOps \<and> length drawOps \<le> 1)"
proof -
  let ?ann = "\<lparr>annFields = [exampleField ''text'' ''name'' (Some ''tx''),
                        exampleField ''text'' ''name'' None]\<rparr>"
  let ?opts = "\<lparr>useNativeFields = None\<rparr>"
  let ?st = "exampleDoc
                 \<lparr>formFields := (formFields exampleDoc)(''tx'' \<mapsto> PDFTextField (Some ''Ann'') None),
                  placements := [SetText ''tx'' ''Ann'', DrawText 0 ''Ann'' 506 331 10]\<rparr>"
  let ?res = "[(''filledCount'', 2 :: nat), (''fallbackCount'', 1)]"
  have c1: "useNativeFields ?opts \<noteq> Some False" by simp
  have c2: "list_ex hasNativeFieldId (annFields ?ann)"
    by (simp add: hasNativeFieldId_def exampleField_def)
  have c3: "render exampleHost exampleDoc ?ann exampleData ?opts = Inr (?st, ?res)"
    by (simp add: run_eval)
  have "\<exists>st1 n k c nativeOps drawOps.
          fillWithNativeFields exampleHost exampleDoc ?ann exampleData = Inr (st1, n, k)
        \<and> fillWithCoordinates exampleHost st1
              (?ann\<lparr>annFields := filter (\<lambda>f. \<not> hasNativeFieldId f) (annFields ?ann)\<rparr>)
              exampleData
            = Inr (?st, c)
        \<and> placements st1 = placements exampleDoc @ nativeOps
        \<and> placements ?st = placements st1 @ drawOps
        \<and> list_all (\<lambda>p. \<not> isDraw p) nativeOps
        \<and> length nativeOps \<le> length (filter hasNativeFieldId (annFields ?ann))
        \<and> list_all isDraw drawOps
        \<and> length drawOps \<le> length (filter (\<lambda>f. \<not> hasNativeFieldId f) (annFields ?ann))"
    by (rule mp [OF render_never_places_twice
          [of ?opts ?ann exampleHost exampleDoc exampleData ?st ?res, THEN conjunct1]])
       (rule conjI [OF c1 conjI [OF c2 c3]])
  then have c4: "\<exists>nativeOps drawOps.
          [SetText ''tx'' ''Ann'', DrawText 0 ''Ann'' 506 331 10] = nativeOps @ drawOps
          \<and> list_all (\<lambda>p. \<not> isDraw p) nativeOps \<and> length nativeOps \<le> 1
          \<and> list_all isDraw drawOps \<and> length drawOps \<le> 1"
  proof (elim exE conjE)
    fix st1 :: renderState and nativeOps drawOps :: "placement list"
    assume p1: "placements st1 = placements exampleDoc @ nativeOps"
      and p2: "placements ?st = placements st1 @ drawOps"
      and l1: "list_all (\<lambda>p. \<not> isDraw p) nativeOps"
      and l2: "length nativeOps \<le> length (filter hasNativeFieldId (annFields ?ann))"
      and l3: "list_all isDraw drawOps"
      and l4: "length drawOps \<le> length (filter (\<lambda>f. \<not> hasNativeFieldId f) (annFields ?ann))"
    have n1: "length (filter hasNativeFieldId (annFields ?ann)) = 1"
      and n2: "length (filter (\<lambda>f. \<not> hasNativeFieldId f) (annFields ?ann)) = 1"
      by (simp_all add: hasNativeFieldId_def exampleField_def)
    have "[SetText ''tx'' ''Ann'', DrawText 0 ''Ann'' 506 331 10] = nativeOps @ drawOps"
      using p1 p2 by (simp add: exampleDoc_def)
    with l1 l2 l3 l4 n1 n2 show ?thesis
      by (intro exI [of _ nativeOps] exI [of _ drawOps]) simp
  qed
  show "useNativeFields ?opts \<noteq> Some False
     \<and> list_ex hasNativeFieldId (annFields ?ann)
     \<and> render exampleHost exampleDoc ?ann exampleData ?opts = Inr (?st, ?res)
     \<and> (\<exists>nativeOps drawOps.
          [SetText ''tx'' ''Ann'', DrawText 0 ''Ann'' 506 331 10] = nativeOps @ drawOps
          \<and> list_all (\<lambda>p. \<not> isDraw p) nativeOps \<and> length nativeOps \<le> 1
          \<and> list_all isDraw drawOps \<and> length drawOps \<le> 1)"
    by (rule conjI [OF c1 conjI [OF c2 conjI [OF c3 c4]]])
qed

theorem native_checkbox_never_unchecks_witness:
  "fieldType (exampleField ''checkbox'' ''yes'' (Some ''cb'')) = ''checkbox''
     \<and> nativeStep exampleHost exampleData (exampleDoc, 0, 0) (exampleField ''checkbox'' ''yes'' (Some ''cb''))
         = Inr (check exampleDoc ''cb'', 1, 0)
     \<and> formattedValueOf exampleHost exampleData (exampleField ''checkbox'' ''yes'' (Some ''cb''))
         = Inr (JBool True)
     \<and> placements (check exampleDoc ''cb'') = placements exampleDoc @ [Check ''cb'']
     \<and> render exampleHost (check exampleDoc ''cb'')
          \<lparr>annFields = [exampleField ''checkbox'' ''no'' (Some ''cb'')]\<rparr>
          exampleData \<lparr>useNativeFields = None\<rparr>
        = Inr (check exampleDoc ''cb'', [(''filledCount'', 0), (''fallbackCount'', 0)])
     \<and> formFields (check exampleDoc ''cb'') ''cb'' = Some (PDFCheckBox True)"
proof -
  let ?f = "exampleField ''checkbox'' ''yes'' (Some ''cb'')"
  let ?ann = "\<lparr>annFields = [exampleField ''checkbox'' ''no'' (Some ''cb'')]\<rparr>"
  let ?opts = "\<lparr>useNativeFields = None\<rparr>"
  let ?res = "[(''filledCount'', 0 :: nat), (''fallbackCount'', 0)]"
  note t = native_checkbox_never_unchecks
    [of ?f exampleHost exampleData exampleDoc 0 0 "check exampleDoc ''cb''" 1 0
        "check exampleDoc ''cb''" ?ann ?opts "check exampleDoc ''cb''" ?res "''cb''"]
  have c1: "fieldType ?f = ''checkbox''"
    by (simp add: exampleField_def)
  have c2: "nativeStep exampleHost exampleData (exampleDoc, 0, 0) ?f = Inr (check exampleDoc ''cb'', 1, 0)"
    by (simp add: run_eval)
  have c3: "formattedValueOf exampleHost exampleData ?f = Inr (JBool True)"
    by (simp add: run_eval)
  have c4: "placements (check exampleDoc ''cb'') = placements exampleDoc @ [Check ''cb'']"
    using mp [OF t [THEN conjunct1] conjI [OF c1 c2]]
    by (auto simp: exampleField_def nativeId_def check_def exampleDoc_def)
  have c5: "render exampleHost (check exampleDoc ''cb'') ?ann exampleData ?opts
      = Inr (check exampleDoc ''cb'', ?res)"
    by (simp add: run_eval)
  have before: "formFields (check exampleDoc ''cb'') ''cb'' = Some (PDFCheckBox True)"
    by (simp add: check_def)
  have c6: "formFields (check exampleDoc ''cb'') ''cb'' = Some (PDFCheckBox True)"
    by (rule mp [OF t [THEN conjunct2] conjI [OF c5 before]])
  show "fieldType ?f = ''checkbox''
     \<and> nativeStep exampleHost exampleData (exampleDoc, 0, 0) ?f = Inr (check exampleDoc ''cb'', 1, 0)
     \<and> formattedValueOf exampleHost exampleData ?f = Inr (JBool True)
     \<and> placements (check exampleDoc ''cb'') = placements exampleDoc @ [Check ''cb'']
     \<and> render exampleHost (check exampleDoc ''cb'') ?ann exampleData ?opts
        = Inr (check exampleDoc ''cb'', ?res)
     \<and> formFields (check exampleDoc ''cb'') ''cb'' = Some (PDFCheckBox True)"
    by (rule conjI [OF c1 conjI [OF c2 conjI [OF c3 conjI [OF c4 conjI [OF c5 c6]]]]])
qed

section \<open>End-to-end scenario\<close>

lemma toLocaleString_57890: "toLocaleString (Fin (115781 / 2)) 2 = Inr ''57,890.50''"
  by (simp add: num_eval)

lemma income_total_value:
  "getNestedValue h (JObj [(''income'', JObj [(''total'', JNum (Fin (115781 / 2)))])])
     ''income.total'' d = Inr (JNum (Fin (115781 / 2)))"
  by (simp add: getNestedValue.simps orDefault_def pathKeys_def startsWith_def isDigit_def)

lemma income_total_formatted:
  assumes "fieldType f = ''currency''" and "path (binding f) = ''income.total''"
    and "transform (binding f) = None"
    and "decimalPlaces (formatOf f) = None" and "\<not> currencySymbol (formatOf f)"
  shows "formattedValueOf h (JObj [(''income'', JObj [(''total'', JNum (Fin (115781 / 2)))])]) f
    = Inr (JStr ''57,890.50'')"
  using assms toLocaleString_57890
  by (simp add: formattedValueOf_def income_total_value applyTransform_def formatValue_def)

text \<open>
  C9. The claim fails on the result: in coordinate mode \<open>render\<close> returns \<open>filledCount\<close>
  alone, without \<open>fallbackCount\<close> and \<open>errorCount\<close>; and the text is right-aligned only when
  the field's format says so. What holds: for an annotation with one currency field bound to
  \<open>income.total\<close>, with default number options, no transform, no condition and no native
  identifier, on an existing page, rendered against \<open>{income:{total:57890.5}}\<close>, coordinate
  placement draws the one string \<open>57,890.50\<close> at the origin that the field's alignment gives,
  vertically centred in the rectangle, and the result is \<open>{filledCount: 1}\<close>; with
  \<open>align\<close> \<open>right\<close> the text ends two points before the right edge of the rectangle.
\<close>

theorem render_single_currency_field:
  "fieldType f = ''currency'' \<and> path (binding f) = ''income.total''
     \<and> transform (binding f) = None \<and> condition (binding f) = None
     \<and> decimalPlaces (formatOf f) = None \<and> \<not> currencySymbol (formatOf f)
     \<and> \<not> hasNativeFieldId f \<and> 1 \<le> page f \<and> page f \<le> int (pageCount pdfDoc)
   \<longrightarrow> render h pdfDoc \<lparr>annFields = [f]\<rparr>
         (JObj [(''income'', JObj [(''total'', JNum (Fin (115781 / 2)))])]) opts
       = Inr (drawText pdfDoc (nat (page f - 1)) ''57,890.50''
                (textXOf (position f) (formatOf f)
                   (widthOfTextAtSize h ''57,890.50'' (fontSizeOf (formatOf f))))
                (posY (position f) + (posHeight (position f) - fontSizeOf (formatOf f)) / 2)
                (fontSizeOf (formatOf f)),
              [(''filledCount'', 1)])
     \<and> (align (formatOf f) = Some ''right'' \<longrightarrow>
          textXOf (position f) (formatOf f) w + w + 2
            = posX (position f) + posWidth (position f))"
proof (intro impI conjI)
  let ?data = "JObj [(''income'', JObj [(''total'', JNum (Fin (115781 / 2)))])]"
  assume a: "fieldType f = ''currency'' \<and> path (binding f) = ''income.total''
     \<and> transform (binding f) = None \<and> condition (binding f) = None
     \<and> decimalPlaces (formatOf f) = None \<and> \<not> currencySymbol (formatOf f)
     \<and> \<not> hasNativeFieldId f \<and> 1 \<le> page f \<and> page f \<le> int (pageCount pdfDoc)"
  have fv: "formattedValueOf h ?data f = Inr (JStr ''57,890.50'')"
    using a by (intro income_total_formatted) simp_all
  have cond: "evaluateCondition h (condition (binding f)) ?data = Inr True"
    using a by (simp add: evaluateCondition_def)
  have step: "coordinateStep h ?data (pdfDoc, 0) f
      = Inr (drawText pdfDoc (nat (page f - 1)) ''57,890.50''
                (textXOf (position f) (formatOf f)
                   (widthOfTextAtSize h ''57,890.50'' (fontSizeOf (formatOf f))))
                (posY (position f) + (posHeight (position f) - fontSizeOf (formatOf f)) / 2)
                (fontSizeOf (formatOf f)), 1)"
    using a fv by (simp add: coordinateStep_def evaluateCondition_def Let_def)
  have "fillWithCoordinates h pdfDoc \<lparr>annFields = [f]\<rparr> ?data
      = Inr (drawText pdfDoc (nat (page f - 1)) ''57,890.50''
                (textXOf (position f) (formatOf f)
                   (widthOfTextAtSize h ''57,890.50'' (fontSizeOf (formatOf f))))
                (posY (position f) + (posHeight (position f) - fontSizeOf (formatOf f)) / 2)
                (fontSizeOf (formatOf f)), 1)"
    by (simp add: fillWithCoordinates_def step)
  then show "render h pdfDoc \<lparr>annFields = [f]\<rparr> ?data opts
       = Inr (drawText pdfDoc (nat (page f - 1)) ''57,890.50''
                (textXOf (position f) (formatOf f)
                   (widthOfTextAtSize h ''57,890.50'' (fontSizeOf (formatOf f))))
                (posY (position f) + (posHeight (position f) - fontSizeOf (formatOf f)) / 2)
                (fontSizeOf (formatOf f)),
              [(''filledCount'', 1)])"
    using a by (simp add: render_def)
next
  assume "align (formatOf f) = Some ''right''"
  then show "textXOf (position f) (formatOf f) w + w + 2
      = posX (position f) + posWidth (position f)"
    by (simp add: textXOf_def)
qed

text \<open>The currency field of the scenario, right-aligned.\<close>

definition incomeField :: field where
  "incomeField =
     \<lparr>fieldId = ''line9'', fieldType = ''currency'', page = 1,
      position = \<lparr>posX = 504, posY = 330, posWidth = 72, posHeight = 12\<rparr>,
      binding = \<lparr>path = ''income.total'', transform = None, condition = None, fallback = None\<rparr>,
      format = Some \<lparr>decimalPlaces = None, currencySymbol = False, dateFormat = None,
                     fontSize = None, checkMark = None, align = Some ''right''\<rparr>,
      nativeFieldId = None\<rparr>"

theorem render_single_currency_field_counterexample:
  "render exampleHost exampleDoc \<lparr>annFields = [incomeField]\<rparr>
     (JObj [(''income'', JObj [(''total'', JNum (Fin (115781 / 2)))])])
     \<lparr>useNativeFields = None\<rparr>
   = Inr (drawText exampleDoc 0 ''57,890.50'' 529 331 10, [(''filledCount'', 1)])
   \<and> map_of [(''filledCount'', 1 :: nat)] ''fallbackCount'' = None
   \<and> map_of [(''filledCount'', 1 :: nat)] ''errorCount'' = None"
proof -
  have "toLocaleString (Fin (115781 / 2)) 2 = Inr ''57,890.50''"
    by (rule toLocaleString_57890)
  then show ?thesis
    by (simp add: render_def fillWithCoordinates_def coordinateStep_def drawText_def
        hasNativeFieldId_def formattedValueOf_def evaluateCondition_def applyTransform_def
        formatValue_def formatOf_def fontSizeOf_def textXOf_def income_total_value
        incomeField_def exampleDoc_def exampleHost_def Let_def)
qed

theorem render_single_currency_field_witness:
  "fieldType incomeField = ''currency'' \<and> path (binding incomeField) = ''income.total''
     \<and> transform (binding incomeField) = None \<and> condition (binding incomeField) = None
     \<and> decimalPlaces (formatOf incomeField) = None \<and> \<not> currencySymbol (formatOf incomeField)
     \<and> \<not> hasNativeFieldId incomeField \<and> 1 \<le> page incomeField
     \<and> page incomeField \<le> int (pageCount exampleDoc)
     \<and> align (formatOf incomeField) = Some ''right''
     \<and> render exampleHost exampleDoc \<lparr>annFields = [incomeField]\<rparr>
           (JObj [(''income'', JObj [(''total'', JNum (Fin (115781 / 2)))])])
           \<lparr>useNativeFields = None\<rparr>
         = Inr (drawText exampleDoc 0 ''57,890.50''
                  529 331 10,
                [(''filledCount'', 1)])"
proof -
  have hyps: "fieldType incomeField = ''currency'' \<and> path (binding incomeField) = ''income.total''
     \<and> transform (binding incomeField) = None \<and> condition (binding incomeField) = None
     \<and> decimalPlaces (formatOf incomeField) = None \<and> \<not> currencySymbol (formatOf incomeField)
     \<and> \<not> hasNativeFieldId incomeField \<and> 1 \<le> page incomeField
     \<and> page incomeField \<le> int (pageCount exampleDoc)"
    by (simp add: incomeField_def formatOf_def hasNativeFieldId_def exampleDoc_def)
  have al: "align (formatOf incomeField) = Some ''right''"
    by (simp add: incomeField_def formatOf_def)
  note t = mp [OF render_single_currency_field
      [of incomeField exampleDoc exampleHost "\<lparr>useNativeFields = None\<rparr>"
          "widthOfTextAtSize exampleHost ''57,890.50'' 10"] hyps]
  have x: "textXOf (position incomeField) (formatOf incomeField)
        (widthOfTextAtSize exampleHost ''57,890.50'' 10)
      = 529"
    by (simp add: textXOf_def incomeField_def formatOf_def exampleHost_def)
  have r: "render exampleHost exampleDoc \<lparr>annFields = [incomeField]\<rparr>
           (JObj [(''income'', JObj [(''total'', JNum (Fin (115781 / 2)))])])
           \<lparr>useNativeFields = None\<rparr>
         = Inr (drawText exampleDoc 0 ''57,890.50''
                  529 331 10,
                [(''filledCount'', 1)])"
    using t [THEN conjunct1] x
    by (simp add: incomeField_def formatOf_def fontSizeOf_def)
  show "fieldType incomeField = ''currency'' \<and> path (binding incomeField) = ''income.total''
     \<and> transform (binding incomeField) = None \<and> condition (binding incomeField) = None
     \<and> decimalPlaces (formatOf incomeField) = None \<and> \<not> currencySymbol (formatOf incomeField)
     \<and> \<not> hasNativeFieldId incomeField \<and> 1 \<le> page incomeField
     \<and> page incomeField \<le> int (pageCount exampleDoc)
     \<and> align (formatOf incomeField) = Some ''right''
     \<and> render exampleHost exampleDoc \<lparr>annFields = [incomeField]\<rparr>
           (JObj [(''income'', JObj [(''total'', JNum (Fin (115781 / 2)))])])
           \<lparr>useNativeFields = None\<rparr>
         = Inr (drawText exampleDoc 0 ''57,890.50''
                  529 331 10,
                [(''filledCount'', 1)])"
    using hyps al r by simp
qed

end
